theory Spec2Isabelle
  imports
    Complex_Main
    "HOL-Library.List_Lexorder"
    "HOL-Library.Char_ord"
    "HOL-Library.Product_Lexorder"
    "HOL-Library.Sublist"
begin

section \<open>The tabular data the analyzers work on\<close>

text \<open>
  The three source files (\<^verbatim>\<open>src/eda/credit_analysis.py\<close>, \<^verbatim>\<open>src/eda/fraud_analysis.py\<close>,
  \<^verbatim>\<open>src/utils/data_loader.py\<close>) are written against pandas data frames. A frame is
  modelled as its list of column names and its list of rows, a row giving one cell per
  column name. A floating-point number is modelled as a real number or \<open>NaN\<close>: rounding
  error and the infinities are outside the model, the propagation of missing values is
  inside it.
\<close>

datatype flt = Val real | NaN

datatype cell = Num real | Str string | Time int | NA

datatype error = KeyError string | TypeError | IndexingError | ValueError

type_synonym row = "string \<Rightarrow> cell"

record dataframe =
  columns :: "string list"
  rows :: "row list"

text \<open>A row written as the list of its cells; a name not listed is a missing cell.\<close>

definition row_of :: "(string \<times> cell) list \<Rightarrow> row" where
  "row_of kvs c = (case map_of kvs c of Some v \<Rightarrow> v | None \<Rightarrow> NA)"

text \<open>\<^verbatim>\<open>df[col]\<close>: the column as a series, or \<^verbatim>\<open>KeyError\<close>.\<close>

definition getitem :: "dataframe \<Rightarrow> string \<Rightarrow> error + cell list" where
  "getitem df c =
     (if c \<in> set (columns df) then Inr (map (\<lambda>r. r c) (rows df)) else Inl (KeyError c))"

text \<open>
  A numeric reduction or comparison needs numbers: a missing cell is \<open>NaN\<close>, a string or a
  timestamp makes the operation raise \<^verbatim>\<open>TypeError\<close>.
\<close>

fun is_numeric :: "cell \<Rightarrow> bool" where
  "is_numeric (Num _) = True"
| "is_numeric NA = True"
| "is_numeric _ = False"

fun as_float :: "cell \<Rightarrow> flt" where
  "as_float (Num x) = Val x"
| "as_float _ = NaN"

definition to_numeric :: "cell list \<Rightarrow> error + flt list" where
  "to_numeric cs = (if list_all is_numeric cs then Inr (map as_float cs) else Inl TypeError)"

definition numeric_column :: "dataframe \<Rightarrow> string \<Rightarrow> error + flt list" where
  "numeric_column df c = (case getitem df c of Inl e \<Rightarrow> Inl e | Inr cs \<Rightarrow> to_numeric cs)"

subsection \<open>Series reductions (missing values skipped)\<close>

fun present :: "flt list \<Rightarrow> real list" where
  "present [] = []"
| "present (Val x # xs) = x # present xs"
| "present (NaN # xs) = present xs"

text \<open>\<^verbatim>\<open>Series.mean()\<close>: the mean of the values present, \<open>NaN\<close> when there is none.\<close>

definition mean :: "flt list \<Rightarrow> flt" where
  "mean xs = (let p = present xs in if p = [] then NaN else Val (sum_list p / real (length p)))"

text \<open>The mean of a boolean series (\<^verbatim>\<open>True\<close> is 1): \<open>NaN\<close> on the empty series.\<close>

definition mean_bool :: "bool list \<Rightarrow> flt" where
  "mean_bool bs =
     (if bs = [] then NaN else Val (real (length (filter (\<lambda>b. b) bs)) / real (length bs)))"

text \<open>Comparisons with a scalar: a comparison with \<open>NaN\<close> on either side is false.\<close>

fun flt_lt :: "flt \<Rightarrow> flt \<Rightarrow> bool" where
  "flt_lt (Val x) (Val y) = (x < y)"
| "flt_lt _ _ = False"

fun flt_gt :: "flt \<Rightarrow> flt \<Rightarrow> bool" where
  "flt_gt (Val x) (Val y) = (x > y)"
| "flt_gt _ _ = False"

fun flt_ge :: "flt \<Rightarrow> flt \<Rightarrow> bool" where
  "flt_ge (Val x) (Val y) = (x \<ge> y)"
| "flt_ge _ _ = False"


subsection \<open>Group keys and their order\<close>

text \<open>
  A group-by sorts its keys: numbers by value, timestamps by time, strings
  lexicographically by character code; across kinds, numbers come before strings (and
  timestamps are put between them). Rows whose key is missing belong to no group.
\<close>

fun cell_rank :: "cell \<Rightarrow> nat" where
  "cell_rank (Num _) = 0"
| "cell_rank (Time _) = 1"
| "cell_rank (Str _) = 2"
| "cell_rank NA = 3"

fun cell_le :: "cell \<Rightarrow> cell \<Rightarrow> bool" where
  "cell_le (Num x) (Num y) = (x \<le> y)"
| "cell_le (Time s) (Time t) = (s \<le> t)"
| "cell_le (Str a) (Str b) = (a \<le> b)"
| "cell_le a b = (cell_rank a \<le> cell_rank b)"

instantiation cell :: linorder
begin

definition less_eq_cell :: "cell \<Rightarrow> cell \<Rightarrow> bool" where
  "less_eq_cell a b = cell_le a b"

definition less_cell :: "cell \<Rightarrow> cell \<Rightarrow> bool" where
  "less_cell a b = (cell_le a b \<and> \<not> cell_le b a)"

instance
proof
  fix x y z :: cell
  show "(x < y) = (x \<le> y \<and> \<not> y \<le> x)"
    by (simp add: less_cell_def less_eq_cell_def)
  show "x \<le> x"
    by (cases x) (simp_all add: less_eq_cell_def)
  show "x \<le> y \<Longrightarrow> y \<le> z \<Longrightarrow> x \<le> z"
    by (cases x; cases y; cases z) (auto simp: less_eq_cell_def)
  show "x \<le> y \<Longrightarrow> y \<le> x \<Longrightarrow> x = y"
    by (cases x; cases y) (auto simp: less_eq_cell_def)
  show "x \<le> y \<or> y \<le> x"
    by (cases x; cases y) (auto simp: less_eq_cell_def)
qed

end

fun key_of :: "cell \<Rightarrow> cell option" where
  "key_of NA = None"
| "key_of c = Some c"

text \<open>The keys of the groups, ascending, each once; and the values of one group, in row order.\<close>

definition group_keys :: "('k::linorder) option list \<Rightarrow> 'k list" where
  "group_keys ks = sort (remdups (map the (filter (\<lambda>k. k \<noteq> None) ks)))"

definition group_of :: "'k option list \<Rightarrow> 'v list \<Rightarrow> 'k \<Rightarrow> 'v list" where
  "group_of ks vs k = map snd (filter (\<lambda>kv. fst kv = Some k) (zip ks vs))"

text \<open>\<^verbatim>\<open>count\<close>: the cells present; \<^verbatim>\<open>sum\<close>: the sum of the values present, 0 when there is none.\<close>

definition count_present :: "cell list \<Rightarrow> nat" where
  "count_present cs = length (filter (\<lambda>c. c \<noteq> NA) cs)"

definition sum_present :: "flt list \<Rightarrow> flt" where
  "sum_present xs = Val (sum_list (present xs))"

subsection \<open>Series arithmetic\<close>

text \<open>
  \<^verbatim>\<open>Series.std()\<close>: the sample standard deviation (\<^verbatim>\<open>ddof=1\<close>) of the values present,
  \<open>NaN\<close> when fewer than two values are present.
\<close>

definition sum_sq_dev :: "real list \<Rightarrow> real" where
  "sum_sq_dev p = (let m = sum_list p / real (length p) in (\<Sum>x\<leftarrow>p. (x - m)\<^sup>2))"

definition std :: "flt list \<Rightarrow> flt" where
  "std xs =
     (let p = present xs in
      if length p < 2 then NaN else Val (sqrt (sum_sq_dev p / real (length p - 1))))"

fun flt_sub :: "flt \<Rightarrow> flt \<Rightarrow> flt" where
  "flt_sub (Val x) (Val y) = Val (x - y)"
| "flt_sub _ _ = NaN"

text \<open>
  Division: \<open>0 / 0\<close> is \<open>NaN\<close>. A nonzero number divided by zero would be an infinity,
  which the model does not have; \<^verbatim>\<open>detect_anomalies\<close> never divides so, since a standard
  deviation of zero means that every value present equals the mean (lemma
  \<open>std_zero_deviation\<close> below).
\<close>

fun flt_div :: "flt \<Rightarrow> flt \<Rightarrow> flt" where
  "flt_div (Val x) (Val y) = (if y = 0 then NaN else Val (x / y))"
| "flt_div _ _ = NaN"

fun flt_abs :: "flt \<Rightarrow> flt" where
  "flt_abs (Val x) = Val \<bar>x\<bar>"
| "flt_abs NaN = NaN"

section \<open>CreditAnalyzer\<close>

subsection \<open>\<^verbatim>\<open>calculate_risk_metrics\<close>\<close>

record metrics =
  default_rate :: flt
  avg_credit_score :: flt
  high_risk_proportion :: flt

text \<open>
  The dictionary is built entry by entry, so a missing or non-numeric \<^verbatim>\<open>default\<close> column
  raises before \<^verbatim>\<open>credit_score\<close> is read.
\<close>

definition calculate_risk_metrics :: "dataframe \<Rightarrow> error + metrics" where
  "calculate_risk_metrics data =
     (case numeric_column data ''default'' of
        Inl e \<Rightarrow> Inl e
      | Inr d \<Rightarrow>
          (case numeric_column data ''credit_score'' of
             Inl e \<Rightarrow> Inl e
           | Inr cs \<Rightarrow>
               Inr \<lparr> default_rate = mean d,
                     avg_credit_score = mean cs,
                     high_risk_proportion = mean_bool (map (\<lambda>v. flt_lt v (Val 600)) cs) \<rparr>))"

text \<open>The five credit rows of the specification's scenario.\<close>

definition credit_rows5 :: "row list" where
  "credit_rows5 =
     [row_of [(''credit_score'', Num 550), (''default'', Num 1)],
      row_of [(''credit_score'', Num 620), (''default'', Num 0)],
      row_of [(''credit_score'', Num 700), (''default'', Num 0)],
      row_of [(''credit_score'', Num 590), (''default'', Num 1)],
      row_of [(''credit_score'', Num 800), (''default'', Num 0)]]"

definition credit5 :: dataframe where
  "credit5 = \<lparr> columns = [''credit_score'', ''default''], rows = credit_rows5 \<rparr>"

text \<open>One credit row whose \<^verbatim>\<open>default\<close> and \<^verbatim>\<open>credit_score\<close> are both missing.\<close>

definition credit_all_missing :: dataframe where
  "credit_all_missing =
     \<lparr> columns = [''default'', ''credit_score''],
       rows = [row_of [(''default'', NA), (''credit_score'', NA)]] \<rparr>"

text \<open>A column is entirely missing when it is in the schema and every cell of it is \<open>NA\<close>.\<close>

definition all_missing :: "dataframe \<Rightarrow> string \<Rightarrow> bool" where
  "all_missing df c = (c \<in> set (columns df) \<and> list_all (\<lambda>r. r c = NA) (rows df))"

definition numeric_in :: "dataframe \<Rightarrow> string \<Rightarrow> bool" where
  "numeric_in df c = (c \<in> set (columns df) \<and> list_all (\<lambda>r. is_numeric (r c)) (rows df))"


subsection \<open>\<^verbatim>\<open>segment_analysis\<close>\<close>

text \<open>
  An aggregation over named columns first checks that they all exist (the first absent one
  is reported), and only then computes.
\<close>

fun require_columns :: "dataframe \<Rightarrow> string list \<Rightarrow> error option" where
  "require_columns df [] = None"
| "require_columns df (c # cs) =
     (if c \<in> set (columns df) then require_columns df cs else Some (KeyError c))"

text \<open>
  \<^verbatim>\<open>round(2)\<close>: the value times 100, rounded to the nearest integer with halves going to
  the even neighbour, divided by 100; \<open>NaN\<close> stays \<open>NaN\<close>.
\<close>

definition rint :: "real \<Rightarrow> int" where
  "rint x =
     (let f = \<lfloor>x\<rfloor>; d = x - of_int f in
      if d < 1/2 then f else if 1/2 < d then f + 1 else if even f then f else f + 1)"

fun round_to :: "nat \<Rightarrow> flt \<Rightarrow> flt" where
  "round_to n (Val x) = Val (of_int (rint (x * 10 ^ n)) / 10 ^ n)"
| "round_to n NaN = NaN"

record segment_row =
  segment :: cell
  default_mean :: flt
  credit_score_mean :: flt
  loan_amount_mean :: flt

definition segment_analysis :: "dataframe \<Rightarrow> string \<Rightarrow> error + segment_row list" where
  "segment_analysis data segment_column =
     (case getitem data segment_column of
        Inl e \<Rightarrow> Inl e
      | Inr seg \<Rightarrow>
        (case require_columns data [''default'', ''credit_score'', ''loan_amount''] of
           Some e \<Rightarrow> Inl e
         | None \<Rightarrow>
        (case numeric_column data ''default'' of
           Inl e \<Rightarrow> Inl e
         | Inr dflt \<Rightarrow>
        (case numeric_column data ''credit_score'' of
           Inl e \<Rightarrow> Inl e
         | Inr score \<Rightarrow>
        (case numeric_column data ''loan_amount'' of
           Inl e \<Rightarrow> Inl e
         | Inr loan \<Rightarrow>
             (let keys = map key_of seg in
              Inr (map (\<lambda>k. \<lparr> segment = k,
                               default_mean = round_to 2 (mean (group_of keys dflt k)),
                               credit_score_mean = round_to 2 (mean (group_of keys score k)),
                               loan_amount_mean = round_to 2 (mean (group_of keys loan k)) \<rparr>)
                       (group_keys keys))))))))"

text \<open>
  The specification's reading: the rows of a segment, and the mean of a column over them.
\<close>

definition segment_mean :: "dataframe \<Rightarrow> string \<Rightarrow> cell \<Rightarrow> string \<Rightarrow> flt" where
  "segment_mean data segment_column k c =
     mean (map (\<lambda>r. as_float (r c)) (filter (\<lambda>r. r segment_column = k) (rows data)))"

definition segment_values :: "dataframe \<Rightarrow> string \<Rightarrow> cell set" where
  "segment_values data segment_column = (\<lambda>r. r segment_column) ` set (rows data) - {NA}"

text \<open>
  What it is for \<open>y\<close> to be \<open>x\<close> rounded to two decimal places: \<open>y\<close> is a whole number of
  hundredths and lies no further than half a hundredth from \<open>x\<close>; an undefined value stays
  undefined. A value exactly halfway between two hundredths has both of them as roundings
  in this sense: which of the two numpy returns there depends on the binary
  representation of the value.
\<close>

definition rounded_2dp :: "flt \<Rightarrow> flt \<Rightarrow> bool" where
  "rounded_2dp x y =
     (case x of
        NaN \<Rightarrow> y = NaN
      | Val a \<Rightarrow>
          (case y of
             NaN \<Rightarrow> False
           | Val b \<Rightarrow> of_int \<lfloor>b * 100\<rfloor> = b * 100 \<and> \<bar>b - a\<bar> \<le> 1/200))"

text \<open>Three credit rows in two regions.\<close>

definition credit_regions :: dataframe where
  "credit_regions =
     \<lparr> columns = [''region'', ''default'', ''credit_score'', ''loan_amount''],
       rows = [row_of [(''region'', Str ''south''), (''default'', Num 1),
                       (''credit_score'', Num 580), (''loan_amount'', Num 1000)],
               row_of [(''region'', Str ''north''), (''default'', Num 0),
                       (''credit_score'', Num 700), (''loan_amount'', Num 100)],
               row_of [(''region'', Str ''north''), (''default'', Num 1),
                       (''credit_score'', Num 701), (''loan_amount'', Num (100 + 15/1000))]] \<rparr>"

subsection \<open>\<^verbatim>\<open>risk_correlation_analysis\<close>\<close>

text \<open>
  \<^verbatim>\<open>DataFrame.corr()\<close>, Pearson, \<^verbatim>\<open>min_periods=1\<close>. For two columns the rows where both
  values are present are used; the coefficient is the sum of the products of the
  deviations over the root of the product of the two sums of squared deviations, cut to
  \<open>[-1, 1]\<close>, and \<open>NaN\<close> when no row is complete or the divisor is zero.
\<close>

fun complete_pairs :: "flt list \<Rightarrow> flt list \<Rightarrow> (real \<times> real) list" where
  "complete_pairs (Val x # xs) (Val y # ys) = (x, y) # complete_pairs xs ys"
| "complete_pairs (_ # xs) (_ # ys) = complete_pairs xs ys"
| "complete_pairs _ _ = []"

definition nancorr_entry :: "flt list \<Rightarrow> flt list \<Rightarrow> flt" where
  "nancorr_entry xs ys =
     (let ps = complete_pairs xs ys; nobs = length ps in
      if nobs < 1 then NaN
      else
        (let meanx = (\<Sum>p\<leftarrow>ps. fst p) / real nobs;
             meany = (\<Sum>p\<leftarrow>ps. snd p) / real nobs;
             ssqdm_x = (\<Sum>p\<leftarrow>ps. (fst p - meanx)\<^sup>2);
             ssqdm_y = (\<Sum>p\<leftarrow>ps. (snd p - meany)\<^sup>2);
             covxy = (\<Sum>p\<leftarrow>ps. (fst p - meanx) * (snd p - meany));
             divisor = sqrt (ssqdm_x * ssqdm_y)
         in if divisor \<noteq> 0 then Val (max (-1) (min 1 (covxy / divisor))) else NaN))"

text \<open>
  The matrix: the entries on and below the diagonal are computed, each is also stored at
  the mirrored position.
\<close>

definition nancorr :: "flt list list \<Rightarrow> flt list list" where
  "nancorr mat =
     map (\<lambda>xi. map (\<lambda>yi. if yi \<le> xi then nancorr_entry (mat ! xi) (mat ! yi)
                          else nancorr_entry (mat ! yi) (mat ! xi))
                    [0..<length mat])
         [0..<length mat]"

record corr_matrix =
  labels :: "string list"
  entries :: "flt list list"

text \<open>
  \<^verbatim>\<open>self.data[features].corr()\<close>: the selection raises \<^verbatim>\<open>KeyError\<close> for an absent feature,
  the correlation raises \<^verbatim>\<open>ValueError\<close> for a column that does not hold numbers.
\<close>

definition risk_correlation_analysis :: "dataframe \<Rightarrow> string list \<Rightarrow> error + corr_matrix" where
  "risk_correlation_analysis data features =
     (case require_columns data features of
        Some e \<Rightarrow> Inl e
      | None \<Rightarrow>
          if list_all (numeric_in data) features
          then Inr \<lparr> labels = features,
                     entries = nancorr (map (\<lambda>f. map (\<lambda>r. as_float (r f)) (rows data)) features) \<rparr>
          else Inl ValueError)"

text \<open>A feature has nonzero variance when its sample standard deviation is a nonzero number.\<close>

definition has_variance :: "dataframe \<Rightarrow> string \<Rightarrow> bool" where
  "has_variance data f =
     (case std (map (\<lambda>r. as_float (r f)) (rows data)) of Val s \<Rightarrow> s \<noteq> 0 | NaN \<Rightarrow> False)"

text \<open>Three credit rows whose two features are exactly opposed.\<close>

definition credit_opposed :: dataframe where
  "credit_opposed =
     \<lparr> columns = [''credit_score'', ''loan_amount''],
       rows = [row_of [(''credit_score'', Num (-1)), (''loan_amount'', Num 1)],
               row_of [(''credit_score'', Num 0), (''loan_amount'', Num 0)],
               row_of [(''credit_score'', Num 1), (''loan_amount'', Num (-1))]] \<rparr>"

section \<open>FraudAnalyzer\<close>

subsection \<open>\<^verbatim>\<open>detect_anomalies\<close>\<close>

text \<open>\<^verbatim>\<open>np.abs((s - s.mean()) / s.std())\<close> for one series \<open>s\<close>.\<close>

definition zscore_series :: "flt list \<Rightarrow> flt list" where
  "zscore_series s = map (\<lambda>v. flt_abs (flt_div (flt_sub v (mean s)) (std s))) s"

text \<open>
  The loop over \<^verbatim>\<open>features\<close>: one column of absolute z-scores per feature, in order; the
  first feature that is absent or not numeric raises.
\<close>

fun z_scores :: "dataframe \<Rightarrow> string list \<Rightarrow> error + (string \<times> flt list) list" where
  "z_scores data [] = Inr []"
| "z_scores data (feature # features) =
     (case numeric_column data feature of
        Inl e \<Rightarrow> Inl e
      | Inr s \<Rightarrow>
          (case z_scores data features of
             Inl e \<Rightarrow> Inl e
           | Inr zs \<Rightarrow> Inr ((feature @ ''_zscore'', zscore_series s) # zs)))"

text \<open>
  \<^verbatim>\<open>(z_scores_df > threshold).any(axis=1)\<close>: one boolean per row of the z-score frame. The
  frame built from an empty dictionary has no row.
\<close>

fun any_axis1 :: "bool list list \<Rightarrow> bool list" where
  "any_axis1 [] = []"
| "any_axis1 [c] = c"
| "any_axis1 (c # cs) = map (\<lambda>(a, b). a \<or> b) (zip c (any_axis1 cs))"

text \<open>
  \<^verbatim>\<open>df[mask]\<close> with a boolean series: the rows whose mask is true, in order, under the same
  columns. A mask that does not cover the frame's index raises.
\<close>

definition getitem_bool :: "dataframe \<Rightarrow> bool list \<Rightarrow> error + dataframe" where
  "getitem_bool df msk =
     (if length msk \<noteq> length (rows df) then Inl IndexingError
      else Inr (df\<lparr> rows := map fst (filter snd (zip (rows df) msk)) \<rparr>))"

definition detect_anomalies :: "dataframe \<Rightarrow> string list \<Rightarrow> flt \<Rightarrow> error + dataframe" where
  "detect_anomalies data features threshold =
     (case z_scores data features of
        Inl e \<Rightarrow> Inl e
      | Inr zs \<Rightarrow>
          getitem_bool data
            (any_axis1 (map (\<lambda>(name, col). map (\<lambda>z. flt_gt z threshold) col) zs)))"

text \<open>
  The specification's reading, row by row: the absolute z-score of a row's value of a
  feature, undefined when the value is missing, when fewer than two values are present or
  when the sample standard deviation is zero; a row is anomalous when the z-score of some
  listed feature exceeds the threshold.
\<close>

definition feature_values :: "dataframe \<Rightarrow> string \<Rightarrow> real list" where
  "feature_values data f = present (map (\<lambda>r. as_float (r f)) (rows data))"

definition sample_std :: "real list \<Rightarrow> real" where
  "sample_std p =
     sqrt ((\<Sum>x\<leftarrow>p. (x - sum_list p / real (length p))\<^sup>2) / (real (length p) - 1))"

definition abs_zscore :: "dataframe \<Rightarrow> string \<Rightarrow> row \<Rightarrow> flt" where
  "abs_zscore data f r =
     (case r f of
        Num v \<Rightarrow>
          (let p = feature_values data f in
           if length p < 2 \<or> sample_std p = 0 then NaN
           else Val \<bar>(v - sum_list p / real (length p)) / sample_std p\<bar>)
      | _ \<Rightarrow> NaN)"

definition anomalous :: "dataframe \<Rightarrow> string list \<Rightarrow> flt \<Rightarrow> row \<Rightarrow> bool" where
  "anomalous data features threshold r =
     list_ex (\<lambda>f. flt_gt (abs_zscore data f r) threshold) features"

text \<open>Three transactions with amounts \<open>-1, 0, 1\<close> (mean 0, sample deviation 1).\<close>

definition tx3 :: dataframe where
  "tx3 =
     \<lparr> columns = [''transaction_id'', ''amount''],
       rows = [row_of [(''transaction_id'', Num 1), (''amount'', Num (-1))],
               row_of [(''transaction_id'', Num 2), (''amount'', Num 0)],
               row_of [(''transaction_id'', Num 3), (''amount'', Num 1)]] \<rparr>"

subsection \<open>\<^verbatim>\<open>calculate_velocity_metrics\<close>\<close>

text \<open>
  The truth value Python gives a float in \<^verbatim>\<open>if amount_threshold:\<close>: zero is false, every
  other float, \<open>NaN\<close> included, is true. \<^verbatim>\<open>None\<close> is false.
\<close>

fun truthy :: "flt \<Rightarrow> bool" where
  "truthy (Val x) = (x \<noteq> 0)"
| "truthy NaN = True"

text \<open>The \<^verbatim>\<open>if\<close>/\<^verbatim>\<open>else\<close> that chooses \<^verbatim>\<open>transactions\<close>.\<close>

fun select_transactions :: "dataframe \<Rightarrow> flt option \<Rightarrow> error + dataframe" where
  "select_transactions data None = Inr data"
| "select_transactions data (Some amount_threshold) =
     (if truthy amount_threshold then
        (case numeric_column data ''amount'' of
           Inl e \<Rightarrow> Inl e
         | Inr amounts \<Rightarrow> getitem_bool data (map (\<lambda>v. flt_gt v amount_threshold) amounts))
      else Inr data)"

text \<open>
  A timestamp column holds timestamps (here whole seconds since the epoch) or missing
  values; anything else makes the time grouper raise.
\<close>

fun is_time :: "cell \<Rightarrow> bool" where
  "is_time (Time _) = True"
| "is_time NA = True"
| "is_time _ = False"

fun as_time :: "cell \<Rightarrow> int option" where
  "as_time (Time t) = Some t"
| "as_time _ = None"

definition datetime_column :: "dataframe \<Rightarrow> string \<Rightarrow> error + int option list" where
  "datetime_column df c =
     (case getitem df c of
        Inl e \<Rightarrow> Inl e
      | Inr cs \<Rightarrow> if list_all is_time cs then Inr (map as_time cs) else Inl TypeError)"

text \<open>
  \<^verbatim>\<open>pd.Grouper(key='transaction_date', freq=time_window)\<close> for a fixed-length window of
  \<open>w\<close> seconds (\<^verbatim>\<open>'1H'\<close> is 3600): the bins are left-closed, labelled by their start and
  anchored at midnight of the day of the earliest timestamp of the grouped frame.
\<close>

definition seconds_per_day :: int where
  "seconds_per_day = 86400"

definition bin_start :: "int list \<Rightarrow> nat \<Rightarrow> int \<Rightarrow> int" where
  "bin_start ts w t =
     (case ts of
        [] \<Rightarrow> t
      | t0 # rest \<Rightarrow>
          (let origin = (fold min rest t0 div seconds_per_day) * seconds_per_day
           in origin + ((t - origin) div int w) * int w))"

definition velocity_keys ::
  "cell list \<Rightarrow> int option list \<Rightarrow> nat \<Rightarrow> (cell \<times> int) option list" where
  "velocity_keys customers dates w =
     (let ts = map the (filter (\<lambda>d. d \<noteq> None) dates) in
      map (\<lambda>(c, d).
             (case (key_of c, d) of
                (Some k, Some t) \<Rightarrow> Some (k, bin_start ts w t)
              | _ \<Rightarrow> None))
          (zip customers dates))"

record velocity_row =
  customer_id :: cell
  time_bucket :: int
  transaction_count :: nat
  amount_sum :: flt
  amount_mean :: flt

text \<open>
  The group-by and its aggregation. The window is read when the grouper is built, then the
  two key columns, then the aggregated columns; a window of length zero is rejected.
\<close>

definition velocity_groups :: "dataframe \<Rightarrow> nat \<Rightarrow> error + velocity_row list" where
  "velocity_groups transactions time_window =
     (if time_window = 0 then Inl ValueError
      else
        (case getitem transactions ''customer_id'' of
           Inl e \<Rightarrow> Inl e
         | Inr customers \<Rightarrow>
        (case datetime_column transactions ''transaction_date'' of
           Inl e \<Rightarrow> Inl e
         | Inr dates \<Rightarrow>
        (case getitem transactions ''transaction_id'' of
           Inl e \<Rightarrow> Inl e
         | Inr ids \<Rightarrow>
        (case numeric_column transactions ''amount'' of
           Inl e \<Rightarrow> Inl e
         | Inr amounts \<Rightarrow>
             (let keys = velocity_keys customers dates time_window in
              Inr (map (\<lambda>k. \<lparr> customer_id = fst k,
                               time_bucket = snd k,
                               transaction_count = count_present (group_of keys ids k),
                               amount_sum = sum_present (group_of keys amounts k),
                               amount_mean = mean (group_of keys amounts k) \<rparr>)
                       (group_keys keys))))))))"

definition calculate_velocity_metrics ::
  "dataframe \<Rightarrow> nat \<Rightarrow> flt option \<Rightarrow> error + velocity_row list" where
  "calculate_velocity_metrics data time_window amount_threshold =
     (case select_transactions data amount_threshold of
        Inl e \<Rightarrow> Inl e
      | Inr transactions \<Rightarrow> velocity_groups transactions time_window)"

text \<open>
  Two transactions of one customer within one hour, none of them with a positive amount.
\<close>

definition tx_not_positive :: dataframe where
  "tx_not_positive =
     \<lparr> columns = [''customer_id'', ''transaction_id'', ''transaction_date'', ''amount''],
       rows = [row_of [(''customer_id'', Str ''c1''), (''transaction_id'', Num 1),
                       (''transaction_date'', Time 60), (''amount'', Num (-5))],
               row_of [(''customer_id'', Str ''c1''), (''transaction_id'', Num 2),
                       (''transaction_date'', Time 120), (''amount'', Num 0)]] \<rparr>"

subsection \<open>\<^verbatim>\<open>get_high_risk_merchants\<close> and numpy's \<^verbatim>\<open>argsort\<close>\<close>

record merchant_row =
  merchant_category :: cell
  n_transactions :: nat
  fraud_rate :: flt

text \<open>The group-by on \<^verbatim>\<open>merchant_category\<close>: the count of transaction ids and the fraud rate.\<close>

definition merchant_risk :: "dataframe \<Rightarrow> error + merchant_row list" where
  "merchant_risk data =
     (case getitem data ''merchant_category'' of
        Inl e \<Rightarrow> Inl e
      | Inr cats \<Rightarrow>
        (case require_columns data [''transaction_id'', ''is_fraud''] of
           Some e \<Rightarrow> Inl e
         | None \<Rightarrow>
        (case getitem data ''transaction_id'' of
           Inl e \<Rightarrow> Inl e
         | Inr ids \<Rightarrow>
        (case numeric_column data ''is_fraud'' of
           Inl e \<Rightarrow> Inl e
         | Inr fraud \<Rightarrow>
             (let keys = map key_of cats in
              Inr (map (\<lambda>k. \<lparr> merchant_category = k,
                               n_transactions = count_present (group_of keys ids k),
                               fraud_rate = mean (group_of keys fraud k) \<rparr>)
                       (group_keys keys)))))))"

text \<open>
  \<^verbatim>\<open>sort_values\<close> sorts with pandas' default kind, \<^verbatim>\<open>quicksort\<close>, and pandas hands the values
  to numpy's \<^verbatim>\<open>argsort\<close>. Its scalar implementation (\<^verbatim>\<open>aquicksort\<close> in numpy's
  \<^verbatim>\<open>npysort/quicksort.cpp\<close>) is an introsort on the array \<^verbatim>\<open>tosort\<close> of positions, which
  starts as \<^verbatim>\<open>0, 1, ..., n - 1\<close>: a part of more than 17 positions is partitioned around
  the median of its first, middle and last value; a part of at most 17 positions is
  sorted by insertion; a part that is reached after more than \<^verbatim>\<open>2 * floor(log2 n)\<close>
  partitions is sorted by heapsort. The values \<^verbatim>\<open>v\<close> are never moved. Pointers into
  \<^verbatim>\<open>tosort\<close> are modelled as positions in the list \<open>ts\<close>.
\<close>

definition SMALL_QUICKSORT :: nat where
  "SMALL_QUICKSORT = 16"

text \<open>\<^verbatim>\<open>INTP_SWAP(*a, *b)\<close>.\<close>

definition intp_swap :: "nat list \<Rightarrow> nat \<Rightarrow> nat \<Rightarrow> nat list" where
  "intp_swap ts a b = ts[a := ts ! b, b := ts ! a]"

text \<open>The three conditional swaps that order the values at \<^verbatim>\<open>pl\<close>, \<^verbatim>\<open>pm\<close> and \<^verbatim>\<open>pr\<close>.\<close>

definition median_of_three :: "real list \<Rightarrow> nat list \<Rightarrow> nat \<Rightarrow> nat \<Rightarrow> nat \<Rightarrow> nat list" where
  "median_of_three v ts pl pm pr =
     (let ts1 = (if v ! (ts ! pm) < v ! (ts ! pl) then intp_swap ts pm pl else ts);
          ts2 = (if v ! (ts1 ! pr) < v ! (ts1 ! pm) then intp_swap ts1 pr pm else ts1)
      in if v ! (ts2 ! pm) < v ! (ts2 ! pl) then intp_swap ts2 pm pl else ts2)"

text \<open>
  \<^verbatim>\<open>do { ++pi; } while (v[*pi] < vp);\<close> The pivot, stored at \<^verbatim>\<open>pr - 1\<close>, stops the scan
  in the source; the model stops at \<^verbatim>\<open>pr\<close> at the latest.
\<close>

function scan_up :: "real list \<Rightarrow> nat list \<Rightarrow> real \<Rightarrow> nat \<Rightarrow> nat \<Rightarrow> nat" where
  "scan_up v ts vp pr p_i =
     (if p_i + 1 < pr \<and> v ! (ts ! (p_i + 1)) < vp then scan_up v ts vp pr (p_i + 1)
      else p_i + 1)"
  by pat_completeness auto
termination
  by (relation "measure (\<lambda>(v, ts, vp, pr, p_i). pr - p_i)") auto

declare scan_up.simps [simp del]

text \<open>
  \<^verbatim>\<open>do { --pj; } while (vp < v[*pj]);\<close> The value at \<^verbatim>\<open>pl\<close>, which is not above the
  pivot, stops the scan in the source; the model stops at position 0 at the latest.
\<close>

function scan_down :: "real list \<Rightarrow> nat list \<Rightarrow> real \<Rightarrow> nat \<Rightarrow> nat" where
  "scan_down v ts vp p_j =
     (if 0 < p_j - 1 \<and> vp < v ! (ts ! (p_j - 1)) then scan_down v ts vp (p_j - 1)
      else p_j - 1)"
  by pat_completeness auto
termination
  by (relation "measure (\<lambda>(v, ts, vp, p_j). p_j)") auto

declare scan_down.simps [simp del]

text \<open>
  The partition loop: scan up, scan down, stop when the scans have met, else swap and go
  on. It returns the array and the position \<^verbatim>\<open>pi\<close> where the scans met.
\<close>

function partition_loop ::
  "real list \<Rightarrow> nat list \<Rightarrow> real \<Rightarrow> nat \<Rightarrow> nat \<Rightarrow> nat \<Rightarrow> nat list \<times> nat" where
  "partition_loop v ts vp pr p_i p_j =
     (if scan_down v ts vp p_j \<le> scan_up v ts vp pr p_i then (ts, scan_up v ts vp pr p_i)
      else partition_loop v (intp_swap ts (scan_up v ts vp pr p_i) (scan_down v ts vp p_j)) vp pr
             (scan_up v ts vp pr p_i) (scan_down v ts vp p_j))"
  by pat_completeness auto
termination
proof -
  have up: "p_i < scan_up v ts vp pr p_i" for v ts vp pr p_i
    by (induction v ts vp pr p_i rule: scan_up.induct) (subst scan_up.simps, auto)
  have down: "scan_down v ts vp p_j \<le> p_j" for v ts vp p_j
    by (induction v ts vp p_j rule: scan_down.induct) (subst scan_down.simps, auto)
  have less: "scan_down v ts vp p_j - scan_up v ts vp pr p_i < p_j - p_i"
    if "\<not> scan_down v ts vp p_j \<le> scan_up v ts vp pr p_i" for v ts vp pr p_i p_j
    using that up [of p_i v ts vp pr] down [of v ts vp p_j] by linarith
  show ?thesis
    by (relation "measure (\<lambda>(v, ts, vp, pr, p_i, p_j). p_j - p_i)") (auto intro: less)
qed

declare partition_loop.simps [simp del]

text \<open>
  One partition of the part from \<^verbatim>\<open>pl\<close> to \<^verbatim>\<open>pr\<close>: the median of three, the pivot put
  at \<^verbatim>\<open>pr - 1\<close>, the loop from \<^verbatim>\<open>pi = pl\<close> and \<^verbatim>\<open>pj = pr - 1\<close>, and the pivot put at
  \<^verbatim>\<open>pi\<close>.
\<close>

definition quick_partition :: "real list \<Rightarrow> nat list \<Rightarrow> nat \<Rightarrow> nat \<Rightarrow> nat list \<times> nat" where
  "quick_partition v ts pl pr =
     (let pm = pl + (pr - pl) div 2;
          ts1 = median_of_three v ts pl pm pr;
          vp = v ! (ts1 ! pm);
          ts2 = intp_swap ts1 pm (pr - 1);
          res = partition_loop v ts2 vp pr pl (pr - 1)
      in (intp_swap (fst res) (snd res) (pr - 1), snd res))"

text \<open>
  The insertion sort of a part: \<^verbatim>\<open>while (pj > pl && vp < v[*pk]) { *pj-- = *pk--; }\<close>
  \<^verbatim>\<open>*pj = vi;\<close> for every \<^verbatim>\<open>pi\<close> from \<^verbatim>\<open>pl + 1\<close> to \<^verbatim>\<open>pr\<close>.
\<close>

function insert_back :: "real list \<Rightarrow> nat list \<Rightarrow> real \<Rightarrow> nat \<Rightarrow> nat \<Rightarrow> nat \<Rightarrow> nat list" where
  "insert_back v ts vp vi pl p_j =
     (if pl < p_j \<and> vp < v ! (ts ! (p_j - 1))
      then insert_back v (ts[p_j := ts ! (p_j - 1)]) vp vi pl (p_j - 1)
      else ts[p_j := vi])"
  by pat_completeness auto
termination
  by (relation "measure (\<lambda>(v, ts, vp, vi, pl, p_j). p_j)") auto

declare insert_back.simps [simp del]

function insertion_loop :: "real list \<Rightarrow> nat list \<Rightarrow> nat \<Rightarrow> nat \<Rightarrow> nat \<Rightarrow> nat list" where
  "insertion_loop v ts pl pr p_i =
     (if p_i \<le> pr
      then insertion_loop v (insert_back v ts (v ! (ts ! p_i)) (ts ! p_i) pl p_i) pl pr (p_i + 1)
      else ts)"
  by pat_completeness auto
termination
  by (relation "measure (\<lambda>(v, ts, pl, pr, p_i). pr + 1 - p_i)") auto

declare insertion_loop.simps [simp del]

definition insertion_sort :: "real list \<Rightarrow> nat list \<Rightarrow> nat \<Rightarrow> nat \<Rightarrow> nat list" where
  "insertion_sort v ts pl pr = insertion_loop v ts pl pr (pl + 1)"

text \<open>
  The heapsort of the \<open>n\<close> positions from \<open>base\<close> (\<^verbatim>\<open>aheapsort\<close>): the source counts
  them from 1, so that \<^verbatim>\<open>a[k]\<close> is the position \<open>base + k - 1\<close> of the list. First the
  sift-down of \<^verbatim>\<open>tmp\<close> from the hole \<open>i\<close> with child \<open>j\<close>, then the loop that builds the
  heap, then the loop that takes the maximum out.
\<close>

function heap_sift ::
  "real list \<Rightarrow> nat list \<Rightarrow> nat \<Rightarrow> nat \<Rightarrow> nat \<Rightarrow> nat \<Rightarrow> nat \<Rightarrow> nat list" where
  "heap_sift v ts base tmp i j n =
     (if 0 < j \<and> j \<le> n then
        (if v ! tmp <
              v ! (ts ! (base + (if j < n \<and> v ! (ts ! (base + j - 1)) < v ! (ts ! (base + j))
                                then j + 1 else j) - 1))
         then heap_sift v
                (ts[base + i - 1 :=
                      ts ! (base + (if j < n \<and> v ! (ts ! (base + j - 1)) < v ! (ts ! (base + j))
                                    then j + 1 else j) - 1)])
                base tmp
                (if j < n \<and> v ! (ts ! (base + j - 1)) < v ! (ts ! (base + j)) then j + 1 else j)
                (2 * (if j < n \<and> v ! (ts ! (base + j - 1)) < v ! (ts ! (base + j))
                      then j + 1 else j))
                n
         else ts[base + i - 1 := tmp])
      else ts[base + i - 1 := tmp])"
  by pat_completeness auto
termination
  by (relation "measure (\<lambda>(v, ts, base, tmp, i, j, n). n + 1 - j)") auto

declare heap_sift.simps [simp del]

fun heap_build :: "real list \<Rightarrow> nat list \<Rightarrow> nat \<Rightarrow> nat \<Rightarrow> nat \<Rightarrow> nat list" where
  "heap_build v ts base n 0 = ts"
| "heap_build v ts base n (Suc l) =
     heap_build v (heap_sift v ts base (ts ! (base + l)) (Suc l) (2 * Suc l) n) base n l"

fun heap_extract :: "real list \<Rightarrow> nat list \<Rightarrow> nat \<Rightarrow> nat \<Rightarrow> nat list" where
  "heap_extract v ts base 0 = ts"
| "heap_extract v ts base (Suc m) =
     (if m = 0 then ts
      else heap_extract v (heap_sift v (ts[base + m := ts ! base]) base (ts ! (base + m)) 1 2 m)
             base m)"

definition aheapsort :: "real list \<Rightarrow> nat list \<Rightarrow> nat \<Rightarrow> nat \<Rightarrow> nat list" where
  "aheapsort v ts pl n = heap_extract v (heap_build v ts pl n (n div 2)) pl n"

text \<open>
  The main loop. After a partition the larger part is pushed on the stack, with the depth
  left, and the smaller part is gone on with; a part popped from the stack with no depth
  left is sorted by heapsort. The parts are disjoint and the values do not move, so the
  model sorts the smaller part and then the pushed one.
\<close>

function aquicksort_loop :: "real list \<Rightarrow> nat list \<Rightarrow> nat \<Rightarrow> nat \<Rightarrow> int \<Rightarrow> nat list" where
  "aquicksort_loop v ts pl pr cdepth =
     (if SMALL_QUICKSORT < pr - pl then
        (if snd (quick_partition v ts pl pr) - pl < pr - snd (quick_partition v ts pl pr) then
           (if cdepth - 1 < 0
            then aheapsort v
                   (aquicksort_loop v (fst (quick_partition v ts pl pr)) pl
                      (snd (quick_partition v ts pl pr) - 1) (cdepth - 1))
                   (snd (quick_partition v ts pl pr) + 1) (pr - snd (quick_partition v ts pl pr))
            else aquicksort_loop v
                   (aquicksort_loop v (fst (quick_partition v ts pl pr)) pl
                      (snd (quick_partition v ts pl pr) - 1) (cdepth - 1))
                   (snd (quick_partition v ts pl pr) + 1) pr (cdepth - 1))
         else
           (if cdepth - 1 < 0
            then aheapsort v
                   (aquicksort_loop v (fst (quick_partition v ts pl pr))
                      (snd (quick_partition v ts pl pr) + 1) pr (cdepth - 1))
                   pl (snd (quick_partition v ts pl pr) - pl)
            else aquicksort_loop v
                   (aquicksort_loop v (fst (quick_partition v ts pl pr))
                      (snd (quick_partition v ts pl pr) + 1) pr (cdepth - 1))
                   pl (snd (quick_partition v ts pl pr) - 1) (cdepth - 1)))
      else insertion_sort v ts pl pr)"
  by pat_completeness auto
termination
proof -
  have up: "p_i < scan_up v ts vp pr p_i" for v ts vp pr p_i
    by (induction v ts vp pr p_i rule: scan_up.induct) (subst scan_up.simps, auto)
  have up_le: "scan_up v ts vp pr p_i \<le> pr" if "p_i < pr" for v ts vp pr p_i
    using that
    by (induction v ts vp pr p_i rule: scan_up.induct) (subst scan_up.simps, auto)
  have down: "scan_down v ts vp p_j \<le> p_j" for v ts vp p_j
    by (induction v ts vp p_j rule: scan_down.induct) (subst scan_down.simps, auto)
  have loop: "p_i < snd (partition_loop v ts vp pr p_i p_j)
      \<and> snd (partition_loop v ts vp pr p_i p_j) \<le> pr"
    if "p_i < pr" and "p_j \<le> pr" for v ts vp pr p_i p_j
    using that
  proof (induction v ts vp pr p_i p_j rule: partition_loop.induct)
    case (1 v ts vp pr p_i p_j)
    have u: "p_i < scan_up v ts vp pr p_i" "scan_up v ts vp pr p_i \<le> pr"
      using up [of p_i v ts vp pr] up_le [OF "1.prems"(1), of v ts vp] by auto
    show ?case
    proof (cases "scan_down v ts vp p_j \<le> scan_up v ts vp pr p_i")
      case True
      then show ?thesis
        using u by (subst (1 2) partition_loop.simps) simp
    next
      case False
      then have "scan_up v ts vp pr p_i < pr" "scan_down v ts vp p_j \<le> pr"
        using down [of v ts vp p_j] "1.prems"(2) by auto
      from "1.IH" [OF False this] show ?thesis
        using False u by (subst (1 2) partition_loop.simps) auto
    qed
  qed
  have part: "pl < snd (quick_partition v ts pl pr) \<and> snd (quick_partition v ts pl pr) \<le> pr"
    if "SMALL_QUICKSORT < pr - pl" for v ts pl pr
    using that loop [where p_i = pl and pr = pr and p_j = "pr - 1"]
    by (simp add: quick_partition_def Let_def SMALL_QUICKSORT_def)
  have left: "snd (quick_partition v ts pl pr) - Suc pl < pr - pl"
    if "SMALL_QUICKSORT < pr - pl" for v ts pl pr
    using part [OF that, of v ts] that unfolding SMALL_QUICKSORT_def by linarith
  have right: "pr - Suc (snd (quick_partition v ts pl pr)) < pr - pl"
    if "SMALL_QUICKSORT < pr - pl" for v ts pl pr
    using part [OF that, of v ts] that unfolding SMALL_QUICKSORT_def by linarith
  show ?thesis
    by (relation "measure (\<lambda>(v, ts, pl, pr, cdepth). pr - pl)") (auto intro: left right)
qed

declare aquicksort_loop.simps [simp del]

text \<open>\<^verbatim>\<open>npy_get_msb\<close>: \<^verbatim>\<open>while (n >>= 1) depth++;\<close>\<close>

function npy_get_msb :: "nat \<Rightarrow> nat" where
  "npy_get_msb n = (if n div 2 = 0 then 0 else npy_get_msb (n div 2) + 1)"
  by pat_completeness auto
termination
  by (relation "measure id") auto

declare npy_get_msb.simps [simp del]

definition numpy_argsort :: "real list \<Rightarrow> nat list" where
  "numpy_argsort v =
     aquicksort_loop v [0..<length v] 0 (length v - 1) (2 * int (npy_get_msb (length v)))"

text \<open>
  \<^verbatim>\<open>sort_values('is_fraud', ascending=False)\<close>, as pandas does it around \<^verbatim>\<open>argsort\<close>
  (\<^verbatim>\<open>nargsort\<close>): the values present are reversed, sorted ascending, the resulting
  positions are reversed again, and the positions of missing values come last. Which
  \<^verbatim>\<open>argsort\<close> runs depends on the build of numpy (the scalar one above, or a vectorised
  one), so it is a parameter of the model.
\<close>

definition nargsort_desc :: "(real list \<Rightarrow> nat list) \<Rightarrow> flt list \<Rightarrow> nat list" where
  "nargsort_desc argsort items =
     (let idx = [0..<length items];
          non_nan_idx = rev (filter (\<lambda>i. items ! i \<noteq> NaN) idx);
          non_nans = present (map ((!) items) non_nan_idx);
          nan_idx = filter (\<lambda>i. items ! i = NaN) idx;
          indexer = rev (map ((!) non_nan_idx) (argsort non_nans))
      in indexer @ nan_idx)"

definition sort_by_fraud_desc ::
  "(real list \<Rightarrow> nat list) \<Rightarrow> merchant_row list \<Rightarrow> merchant_row list" where
  "sort_by_fraud_desc argsort rs = map ((!) rs) (nargsort_desc argsort (map fraud_rate rs))"

definition get_high_risk_merchants ::
  "(real list \<Rightarrow> nat list) \<Rightarrow> dataframe \<Rightarrow> int \<Rightarrow> flt \<Rightarrow> error + merchant_row list" where
  "get_high_risk_merchants argsort data min_transactions risk_threshold =
     (case merchant_risk data of
        Inl e \<Rightarrow> Inl e
      | Inr mr \<Rightarrow>
          (let high_risk =
                 filter (\<lambda>r. min_transactions \<le> int (n_transactions r)
                              \<and> flt_ge (fraud_rate r) risk_threshold) mr
           in Inr (sort_by_fraud_desc argsort high_risk)))"

text \<open>
  What a sorting procedure owes on one input: the positions of the input, each once, in
  an order along which the values ascend.
\<close>

definition sorts_ascending :: "nat list \<Rightarrow> real list \<Rightarrow> bool" where
  "sorts_ascending idx xs = (sort idx = [0..<length xs] \<and> sorted (map ((!) xs) idx))"

text \<open>The specification's reading: the categories, and the count and fraud rate of one.\<close>

definition categories :: "dataframe \<Rightarrow> cell set" where
  "categories data = (\<lambda>r. r ''merchant_category'') ` set (rows data) - {NA}"

definition category_row :: "dataframe \<Rightarrow> cell \<Rightarrow> merchant_row" where
  "category_row data k =
     (let rs = filter (\<lambda>r. r ''merchant_category'' = k) (rows data) in
      \<lparr> merchant_category = k,
        n_transactions = length (filter (\<lambda>r. r ''transaction_id'' \<noteq> NA) rs),
        fraud_rate = mean (map (\<lambda>r. as_float (r ''is_fraud'')) rs) \<rparr>)"

definition qualifies :: "int \<Rightarrow> flt \<Rightarrow> merchant_row \<Rightarrow> bool" where
  "qualifies min_transactions risk_threshold r =
     (min_transactions \<le> int (n_transactions r) \<and> flt_ge (fraud_rate r) risk_threshold)"

text \<open>
  The categories in ascending order, and the fraud rates of the qualifying ones in that
  order: the values that are handed, reversed, to \<^verbatim>\<open>argsort\<close>.
\<close>

definition sorted_categories :: "dataframe \<Rightarrow> cell list" where
  "sorted_categories data =
     group_keys (map (\<lambda>r. key_of (r ''merchant_category'')) (rows data))"

definition high_risk_rates :: "dataframe \<Rightarrow> int \<Rightarrow> flt \<Rightarrow> real list" where
  "high_risk_rates data min_transactions risk_threshold =
     present (map fraud_rate
       (filter (qualifies min_transactions risk_threshold)
          (map (category_row data) (sorted_categories data))))"

text \<open>
  Eighteen categories, \<^verbatim>\<open>m01\<close> to \<^verbatim>\<open>m18\<close>, each with one transaction, which is a fraud:
  eighteen groups with the fraud rate 1.
\<close>

definition one_fraud :: "string \<Rightarrow> row" where
  "one_fraud k =
     row_of [(''merchant_category'', Str k), (''transaction_id'', Str k), (''is_fraud'', Num 1)]"

definition merchants18 :: dataframe where
  "merchants18 =
     \<lparr> columns = [''merchant_category'', ''transaction_id'', ''is_fraud''],
       rows = map one_fraud
                [''m01'', ''m02'', ''m03'', ''m04'', ''m05'', ''m06'', ''m07'', ''m08'', ''m09'',
                 ''m10'', ''m11'', ''m12'', ''m13'', ''m14'', ''m15'', ''m16'', ''m17'', ''m18''] \<rparr>"

definition tied_row :: "string \<Rightarrow> merchant_row" where
  "tied_row k = \<lparr> merchant_category = Str k, n_transactions = 1, fraud_rate = Val 1 \<rparr>"

text \<open>Four transactions in two categories, each with a fraud rate of one half.\<close>

definition tx_tied :: dataframe where
  "tx_tied =
     \<lparr> columns = [''merchant_category'', ''transaction_id'', ''is_fraud''],
       rows = [row_of [(''merchant_category'', Str ''grocery''), (''transaction_id'', Num 1),
                       (''is_fraud'', Num 1)],
               row_of [(''merchant_category'', Str ''travel''), (''transaction_id'', Num 2),
                       (''is_fraud'', Num 0)],
               row_of [(''merchant_category'', Str ''grocery''), (''transaction_id'', Num 3),
                       (''is_fraud'', Num 0)],
               row_of [(''merchant_category'', Str ''travel''), (''transaction_id'', Num 4),
                       (''is_fraud'', Num 1)]] \<rparr>"

section \<open>Data loader: \<^verbatim>\<open>clean_numeric\<close>\<close>

text \<open>
  \<^verbatim>\<open>Series.median()\<close> and \<^verbatim>\<open>Series.quantile(q)\<close> (linear interpolation) over the values
  present, sorted: the quantile lies at position \<open>(n - 1) * q\<close>, between the values at
  the two neighbouring whole positions. Both are \<open>NaN\<close> when no value is present.
\<close>

definition median :: "flt list \<Rightarrow> flt" where
  "median xs =
     (let p = sort (present xs); n = length p in
      if n = 0 then NaN
      else if odd n then Val (p ! (n div 2))
      else Val ((p ! (n div 2 - 1) + p ! (n div 2)) / 2))"

definition quantile :: "flt list \<Rightarrow> real \<Rightarrow> flt" where
  "quantile xs q =
     (let p = sort (present xs); n = length p in
      if n = 0 then NaN
      else
        (let h = real (n - 1) * q;
             lo = nat \<lfloor>h\<rfloor>;
             hi = min (lo + 1) (n - 1)
         in Val (p ! lo + (h - real lo) * (p ! hi - p ! lo))))"

definition fillna :: "flt \<Rightarrow> flt list \<Rightarrow> flt list" where
  "fillna v xs = map (\<lambda>x. if x = NaN then v else x) xs"

text \<open>\<^verbatim>\<open>clip(upper=u)\<close>: a bound that is \<open>NaN\<close> is no bound; a missing value stays missing.\<close>

fun clip_value :: "real \<Rightarrow> flt \<Rightarrow> flt" where
  "clip_value b (Val a) = Val (min a b)"
| "clip_value b NaN = NaN"

fun clip_upper :: "flt \<Rightarrow> flt list \<Rightarrow> flt list" where
  "clip_upper NaN xs = xs"
| "clip_upper (Val b) xs = map (clip_value b) xs"

fun of_float :: "flt \<Rightarrow> cell" where
  "of_float (Val x) = Num x"
| "of_float NaN = NA"

text \<open>\<^verbatim>\<open>df[col] = series\<close>: the frame is changed in place, the model returns the changed frame.\<close>

definition setitem :: "dataframe \<Rightarrow> string \<Rightarrow> flt list \<Rightarrow> dataframe" where
  "setitem df c vals =
     df\<lparr> columns := (if c \<in> set (columns df) then columns df else columns df @ [c]),
         rows := map (\<lambda>rv. (fst rv)(c := of_float (snd rv))) (zip (rows df) vals) \<rparr>"

text \<open>The body of the loop for one column that is in the schema.\<close>

definition clean_column :: "dataframe \<Rightarrow> string \<Rightarrow> error + dataframe" where
  "clean_column df col =
     (case numeric_column df col of
        Inl e \<Rightarrow> Inl e
      | Inr s \<Rightarrow>
          (let df1 = setitem df col (fillna (median s) s) in
           (case numeric_column df1 col of
              Inl e \<Rightarrow> Inl e
            | Inr filled \<Rightarrow>
                (let upper_limit = quantile filled (99/100)
                 in Inr (setitem df1 col (clip_upper upper_limit filled))))))"

fun clean_numeric :: "dataframe \<Rightarrow> string list \<Rightarrow> error + dataframe" where
  "clean_numeric df [] = Inr df"
| "clean_numeric df (col # numeric_columns) =
     (if col \<in> set (columns df) then
        (case clean_column df col of
           Inl e \<Rightarrow> Inl e
         | Inr df' \<Rightarrow> clean_numeric df' numeric_columns)
      else clean_numeric df numeric_columns)"

text \<open>
  The specification's reading for one column: the missing values replaced by the median
  of the values present, then every value above the 99th percentile of the filled column
  replaced by that percentile, the others unchanged.
\<close>

definition cleaned_series :: "flt list \<Rightarrow> flt list" where
  "cleaned_series s =
     (let filled = map (\<lambda>v. case v of NaN \<Rightarrow> median s | Val x \<Rightarrow> Val x) s;
          p99 = quantile filled (99/100)
      in map (\<lambda>v. if flt_gt v p99 then p99 else v) filled)"

definition column_cells :: "dataframe \<Rightarrow> string \<Rightarrow> cell list" where
  "column_cells df c = map (\<lambda>r. r c) (rows df)"

text \<open>
  One listed column, on the columns of a frame with the given schema: a column that is not
  in the schema is skipped, a column that is in it is replaced by its cleaned series.
\<close>

definition clean_listed ::
  "string list \<Rightarrow> (string \<Rightarrow> cell list) \<Rightarrow> string \<Rightarrow> (string \<Rightarrow> cell list)" where
  "clean_listed schema cells c =
     (if c \<in> set schema
      then cells(c := map of_float (cleaned_series (map as_float (cells c))))
      else cells)"

text \<open>The cells of one column after \<^verbatim>\<open>clean_numeric\<close>, or the error it raised.\<close>

definition cleaned_cells :: "dataframe \<Rightarrow> string list \<Rightarrow> string \<Rightarrow> error + cell list" where
  "cleaned_cells df numeric_columns c =
     (case clean_numeric df numeric_columns of
        Inl e \<Rightarrow> Inl e
      | Inr df' \<Rightarrow> Inr (column_cells df' c))"

text \<open>Five loans, one amount missing; and two amounts, 0 and 100.\<close>

definition loans5 :: dataframe where
  "loans5 =
     \<lparr> columns = [''loan_amount''],
       rows = [row_of [(''loan_amount'', Num 100)],
               row_of [(''loan_amount'', NA)],
               row_of [(''loan_amount'', Num 300)],
               row_of [(''loan_amount'', Num 200)],
               row_of [(''loan_amount'', Num 1000)]] \<rparr>"

definition two_amounts :: dataframe where
  "two_amounts =
     \<lparr> columns = [''amount''],
       rows = [row_of [(''amount'', Num 0)], row_of [(''amount'', Num 100)]] \<rparr>"

section \<open>Properties\<close>

subsection \<open>Series reductions\<close>

lemma numeric_column_numeric_in:
  "numeric_in df c \<Longrightarrow> numeric_column df c = Inr (map (\<lambda>r. as_float (r c)) (rows df))"
  by (simp add: numeric_in_def numeric_column_def getitem_def to_numeric_def list_all_iff)

lemma present_all_NaN: "list_all (\<lambda>v. v = NaN) xs \<Longrightarrow> present xs = []"
  by (induction xs) auto

lemma mean_all_NaN: "list_all (\<lambda>v. v = NaN) xs \<Longrightarrow> mean xs = NaN"
  by (simp add: mean_def present_all_NaN)

lemma filter_none: "list_all (\<lambda>b. \<not> b) bs \<Longrightarrow> filter (\<lambda>b. b) bs = []"
  by (induction bs) auto

lemma mean_bool_all_False:
  "list_all (\<lambda>b. \<not> b) bs \<Longrightarrow> mean_bool bs = (if bs = [] then NaN else Val 0)"
  by (simp add: mean_bool_def filter_none)

subsection \<open>\<^verbatim>\<open>calculate_risk_metrics\<close>\<close>

text \<open>
  C6. On the five credit rows with \<^verbatim>\<open>credit_score = [550, 620, 700, 590, 800]\<close> and
  \<^verbatim>\<open>default = [1, 0, 0, 1, 0]\<close>, \<^verbatim>\<open>calculate_risk_metrics\<close> returns a default rate of 0.4, an
  average credit score of 652 and a high-risk proportion of 0.4, the fraction of rows whose
  score is strictly below 600.
\<close>

theorem risk_metrics_scenario:
  "calculate_risk_metrics credit5 =
     Inr \<lparr> default_rate = Val 0.4, avg_credit_score = Val 652, high_risk_proportion = Val 0.4 \<rparr>"
  by (simp add: calculate_risk_metrics_def numeric_column_def getitem_def to_numeric_def
      credit5_def credit_rows5_def row_of_def mean_def mean_bool_def)

text \<open>
  C2 (as amended). On a frame whose \<^verbatim>\<open>default\<close> and \<^verbatim>\<open>credit_score\<close> columns hold numbers
  or missing values, \<^verbatim>\<open>calculate_risk_metrics\<close> raises nothing; all three statistics are
  \<open>NaN\<close> on the empty frame; the default rate is \<open>NaN\<close> when \<^verbatim>\<open>default\<close> is entirely
  missing and the average credit score is \<open>NaN\<close> when \<^verbatim>\<open>credit_score\<close> is entirely missing;
  the high-risk proportion of a non-empty frame whose \<^verbatim>\<open>credit_score\<close> is entirely missing is
  0, since a missing score is not below 600.
\<close>

theorem risk_metrics_degenerate:
  assumes "numeric_in data ''default''" and "numeric_in data ''credit_score''"
  shows "\<exists>m. calculate_risk_metrics data = Inr m
           \<and> (rows data = [] \<longrightarrow>
                default_rate m = NaN \<and> avg_credit_score m = NaN \<and> high_risk_proportion m = NaN)
           \<and> (all_missing data ''default'' \<longrightarrow> default_rate m = NaN)
           \<and> (all_missing data ''credit_score'' \<longrightarrow>
                avg_credit_score m = NaN
                \<and> high_risk_proportion m = (if rows data = [] then NaN else Val 0))"
proof -
  let ?d = "map (\<lambda>r. as_float (r ''default'')) (rows data)"
  let ?cs = "map (\<lambda>r. as_float (r ''credit_score'')) (rows data)"
  let ?m = "\<lparr> default_rate = mean ?d, avg_credit_score = mean ?cs,
              high_risk_proportion = mean_bool (map (\<lambda>v. flt_lt v (Val 600)) ?cs) \<rparr>"
  have run: "calculate_risk_metrics data = Inr ?m"
    using assms by (simp add: calculate_risk_metrics_def numeric_column_numeric_in)
  have empty: "rows data = [] \<Longrightarrow> mean ?d = NaN \<and> mean ?cs = NaN
      \<and> mean_bool (map (\<lambda>v. flt_lt v (Val 600)) ?cs) = NaN"
    by (simp add: mean_def mean_bool_def)
  have dflt: "all_missing data ''default'' \<Longrightarrow> mean ?d = NaN"
    by (rule mean_all_NaN) (auto simp: all_missing_def list_all_iff)
  have avg: "all_missing data ''credit_score'' \<Longrightarrow> mean ?cs = NaN"
    by (rule mean_all_NaN) (auto simp: all_missing_def list_all_iff)
  have hrp: "all_missing data ''credit_score'' \<Longrightarrow>
      mean_bool (map (\<lambda>v. flt_lt v (Val 600)) ?cs) = (if rows data = [] then NaN else Val 0)"
  proof -
    assume "all_missing data ''credit_score''"
    then have "list_all (\<lambda>b. \<not> b) (map (\<lambda>v. flt_lt v (Val 600)) ?cs)"
      by (auto simp: all_missing_def list_all_iff)
    then show ?thesis
      by (simp add: mean_bool_all_False)
  qed
  show ?thesis
    using run empty dflt avg hrp by simp
qed

theorem risk_metrics_degenerate_witness:
  "numeric_in credit_all_missing ''default''
   \<and> numeric_in credit_all_missing ''credit_score''
   \<and> all_missing credit_all_missing ''credit_score''
   \<and> (\<exists>m. calculate_risk_metrics credit_all_missing = Inr m
          \<and> avg_credit_score m = NaN \<and> high_risk_proportion m = Val 0)"
proof -
  have n1: "numeric_in credit_all_missing ''default''"
    by (simp add: numeric_in_def credit_all_missing_def row_of_def)
  have n2: "numeric_in credit_all_missing ''credit_score''"
    by (simp add: numeric_in_def credit_all_missing_def row_of_def)
  have a: "all_missing credit_all_missing ''credit_score''"
    by (simp add: all_missing_def credit_all_missing_def row_of_def)
  have ne: "rows credit_all_missing \<noteq> []"
    by (simp add: credit_all_missing_def)
  from risk_metrics_degenerate [OF n1 n2] a ne n1 n2 show ?thesis
    by auto
qed

text \<open>
  The claim as stated fails: with one row whose \<^verbatim>\<open>credit_score\<close> is missing, the column is
  entirely missing and the high-risk proportion is 0, not \<open>NaN\<close>.
\<close>

theorem risk_metrics_all_missing_counterexample:
  "all_missing credit_all_missing ''credit_score''
   \<and> calculate_risk_metrics credit_all_missing =
       Inr \<lparr> default_rate = NaN, avg_credit_score = NaN, high_risk_proportion = Val 0 \<rparr>"
  by (simp add: all_missing_def calculate_risk_metrics_def numeric_column_def getitem_def
      to_numeric_def credit_all_missing_def row_of_def mean_def mean_bool_def)


subsection \<open>\<^verbatim>\<open>detect_anomalies\<close>\<close>

lemma sum_list_sq_zero:
  fixes m :: real
  shows "(\<Sum>x\<leftarrow>p. (x - m)\<^sup>2) = 0 \<Longrightarrow> x \<in> set p \<Longrightarrow> x = m"
proof (induction p)
  case Nil
  then show ?case by simp
next
  case (Cons a p)
  have nn: "0 \<le> (\<Sum>x\<leftarrow>p. (x - m)\<^sup>2)"
    by (rule sum_list_nonneg) auto
  have "(a - m)\<^sup>2 + (\<Sum>x\<leftarrow>p. (x - m)\<^sup>2) = 0"
    using Cons.prems(1) by simp
  then have a0: "(a - m)\<^sup>2 = 0" and p0: "(\<Sum>x\<leftarrow>p. (x - m)\<^sup>2) = 0"
    using nn by (auto simp: add_nonneg_eq_0_iff)
  show ?case
    using Cons.IH [OF p0] Cons.prems(2) a0 by auto
qed

lemma in_present: "Val x \<in> set xs \<Longrightarrow> x \<in> set (present xs)"
  by (induction xs rule: present.induct) auto

text \<open>A standard deviation of zero: every value present is the mean, so the z-score is \<open>0 / 0\<close>.\<close>

lemma std_zero_deviation:
  assumes "std xs = Val 0" and "Val x \<in> set xs"
  shows "flt_sub (Val x) (mean xs) = Val 0"
proof -
  let ?p = "present xs"
  have len: "\<not> length ?p < 2"
    using assms(1) by (auto simp: std_def Let_def split: if_splits)
  then have ne: "?p \<noteq> []" by auto
  have "sum_sq_dev ?p / real (length ?p - 1) = 0"
    using assms(1) len by (simp add: std_def Let_def)
  then have "sum_sq_dev ?p = 0"
    using len by simp
  then have "x = sum_list ?p / real (length ?p)"
    using in_present [OF assms(2)] sum_list_sq_zero [where p = ?p and m = "sum_list ?p / real (length ?p)" and x = x]
    by (simp add: sum_sq_dev_def)
  then show ?thesis
    using ne by (simp add: mean_def Let_def)
qed


lemma filter_zip_map: "map fst (filter snd (zip xs (map P xs))) = filter P xs"
  by (induction xs) auto

lemma z_scores_numeric:
  "list_all (numeric_in data) features \<Longrightarrow>
   z_scores data features =
     Inr (map (\<lambda>f. (f @ ''_zscore'', zscore_series (map (\<lambda>r. as_float (r f)) (rows data)))) features)"
  by (induction features) (simp_all add: numeric_column_numeric_in)

lemma any_axis1_rows:
  "fs \<noteq> [] \<Longrightarrow>
   any_axis1 (map (\<lambda>f. map (P f) rs) fs) = map (\<lambda>r. list_ex (\<lambda>f. P f r) fs) rs"
proof (induction fs)
  case Nil
  then show ?case by simp
next
  case (Cons f fs)
  show ?case
  proof (cases fs)
    case Nil
    then show ?thesis by simp
  next
    case (Cons g gs)
    then have "any_axis1 (map (\<lambda>f. map (P f) rs) fs) = map (\<lambda>r. list_ex (\<lambda>f. P f r) fs) rs"
      using Cons.IH by simp
    then show ?thesis
      using Cons by (simp add: zip_map_map zip_same_conv_map)
  qed
qed

lemma real_pred: "0 < n \<Longrightarrow> real (n - 1) = real n - 1"
  by (cases n) simp_all

lemma zscore_entry:
  assumes "is_numeric (r f)"
  shows "flt_abs (flt_div (flt_sub (as_float (r f)) (mean (map (\<lambda>r. as_float (r f)) (rows data))))
            (std (map (\<lambda>r. as_float (r f)) (rows data)))) = abs_zscore data f r"
proof (cases "r f")
  case (Num v)
  let ?p = "feature_values data f"
  show ?thesis
  proof (cases "length ?p < 2")
    case True
    then show ?thesis using Num
      by (simp add: abs_zscore_def std_def feature_values_def)
  next
    case False
    then have ne: "?p \<noteq> []" by auto
    have sd: "sqrt (sum_sq_dev ?p / real (length ?p - 1)) = sample_std ?p"
      using False by (simp add: sample_std_def sum_sq_dev_def real_pred)
    show ?thesis using Num False ne sd
      by (simp add: abs_zscore_def std_def mean_def feature_values_def [symmetric] Let_def)
  qed
qed (use assms in \<open>simp_all add: abs_zscore_def\<close>)


text \<open>
  C3. For a non-empty list of features that are numeric columns of the frame,
  \<^verbatim>\<open>detect_anomalies\<close> returns the frame's own columns and exactly those of its rows, in their
  order, for which the absolute z-score (deviation from the feature's mean over the sample
  standard deviation, \<^verbatim>\<open>ddof=1\<close>) of at least one listed feature exceeds the threshold; a
  missing value or a zero deviation gives an undefined z-score, which exceeds nothing.
\<close>

theorem detect_anomalies_rows:
  assumes "features \<noteq> []" and "list_all (numeric_in data) features"
  shows "detect_anomalies data features threshold =
           Inr (data\<lparr> rows := filter (anomalous data features threshold) (rows data) \<rparr>)"
proof -
  let ?col = "\<lambda>f. map (\<lambda>r. as_float (r f)) (rows data)"
  let ?P = "\<lambda>f r. flt_gt (flt_abs (flt_div (flt_sub (as_float (r f)) (mean (?col f))) (std (?col f)))) threshold"
  have zs: "z_scores data features = Inr (map (\<lambda>f. (f @ ''_zscore'', zscore_series (?col f))) features)"
    using assms(2) by (rule z_scores_numeric)
  have cols: "map (\<lambda>(name, col). map (\<lambda>z. flt_gt z threshold) col)
                (map (\<lambda>f. (f @ ''_zscore'', zscore_series (?col f))) features)
              = map (\<lambda>f. map (?P f) (rows data)) features"
    by (simp add: zscore_series_def comp_def)
  have msk: "any_axis1 (map (\<lambda>f. map (?P f) (rows data)) features)
      = map (\<lambda>r. list_ex (\<lambda>f. ?P f r) features) (rows data)"
    using assms(1) by (rule any_axis1_rows)
  have same: "map (\<lambda>r. list_ex (\<lambda>f. ?P f r) features) (rows data)
      = map (anomalous data features threshold) (rows data)"
  proof (rule map_cong [OF refl])
    fix r assume r: "r \<in> set (rows data)"
    have "\<And>f. f \<in> set features \<Longrightarrow> ?P f r = flt_gt (abs_zscore data f r) threshold"
    proof -
      fix f assume "f \<in> set features"
      then have "numeric_in data f" using assms(2) by (simp add: list_all_iff)
      then have "is_numeric (r f)" using r by (simp add: numeric_in_def list_all_iff)
      then show "?P f r = flt_gt (abs_zscore data f r) threshold"
        by (simp add: zscore_entry)
    qed
    then show "list_ex (\<lambda>f. ?P f r) features = anomalous data features threshold r"
      by (simp add: anomalous_def list_ex_iff)
  qed
  show ?thesis
    unfolding detect_anomalies_def zs sum.case cols msk same
    by (simp add: getitem_bool_def filter_zip_map)
qed

theorem detect_anomalies_rows_witness:
  "[''amount''] \<noteq> [] \<and> list_all (numeric_in tx3) [''amount'']
   \<and> detect_anomalies tx3 [''amount''] (Val (1/2)) =
     Inr \<lparr> columns = [''transaction_id'', ''amount''],
           rows = [row_of [(''transaction_id'', Num 1), (''amount'', Num (-1))],
                   row_of [(''transaction_id'', Num 3), (''amount'', Num 1)]] \<rparr>"
proof -
  have n: "list_all (numeric_in tx3) [''amount'']"
    by (simp add: numeric_in_def tx3_def row_of_def)
  show ?thesis
    using detect_anomalies_rows [of "[''amount'']" tx3 "Val (1/2)"] n
    by (simp add: tx3_def anomalous_def abs_zscore_def feature_values_def sample_std_def row_of_def)
qed

lemma any_axis1_length:
  "list_all (\<lambda>c. length c = n) cs \<Longrightarrow> cs \<noteq> [] \<Longrightarrow> length (any_axis1 cs) = n"
  by (induction cs rule: any_axis1.induct) auto

lemma any_axis1_mono:
  "list_all2 (list_all2 (\<lambda>a b. a \<longrightarrow> b)) cs ds \<Longrightarrow>
   list_all2 (\<lambda>a b. a \<longrightarrow> b) (any_axis1 cs) (any_axis1 ds)"
proof (induction cs arbitrary: ds rule: any_axis1.induct)
  case 1
  then show ?case by simp
next
  case (2 c)
  then show ?case by (auto simp: list_all2_Cons1)
next
  case (3 c v va)
  from "3.prems" obtain d ds' where ds: "ds = d # ds'" and cd: "list_all2 (\<lambda>a b. a \<longrightarrow> b) c d"
    and rest: "list_all2 (list_all2 (\<lambda>a b. a \<longrightarrow> b)) (v # va) ds'"
    by (auto simp: list_all2_Cons1)
  from rest obtain e es where ds': "ds' = e # es" by (auto simp: list_all2_Cons1)
  have ih: "list_all2 (\<lambda>a b. a \<longrightarrow> b) (any_axis1 (v # va)) (any_axis1 ds')"
    using "3.IH" rest by simp
  have "list_all2 (\<lambda>a b. a \<longrightarrow> b)
          (map (\<lambda>(a, b). a \<or> b) (zip c (any_axis1 (v # va))))
          (map (\<lambda>(a, b). a \<or> b) (zip d (any_axis1 ds')))"
    using cd ih
    by (auto simp: list_all2_conv_all_nth)
  then show ?case using ds ds' by simp
qed

lemma filter_mask_subseq:
  "list_all2 (\<lambda>a b. a \<longrightarrow> b) m2 m1 \<Longrightarrow>
   subseq (map fst (filter snd (zip xs m2))) (map fst (filter snd (zip xs m1)))"
proof (induction xs arbitrary: m1 m2)
  case Nil
  then show ?case by simp
next
  case (Cons x xs)
  show ?case
  proof (cases m2)
    case Nil
    then show ?thesis by simp
  next
    case (Cons b bs)
    with Cons.prems obtain a as where m1: "m1 = a # as" and ba: "b \<longrightarrow> a"
      and rest: "list_all2 (\<lambda>a b. a \<longrightarrow> b) bs as"
      by (auto simp: list_all2_Cons1)
    from Cons.IH [OF rest] show ?thesis
      using Cons m1 ba by (auto intro: subseq_Cons')
  qed
qed

lemma subseq_set: "subseq xs ys \<Longrightarrow> set xs \<subseteq> set ys"
  by (induction rule: list_emb.induct) auto

text \<open>
  C4. \<^verbatim>\<open>detect_anomalies\<close> reads \<^verbatim>\<open>self.data\<close> and writes nothing, so it is a function of the
  frame, the features and the threshold: a second run on the same inputs returns the same
  rows in the same order. Raising the threshold from \<open>t1\<close> to \<open>t2\<close> keeps the outcome an
  error when it was one, and otherwise returns a subsequence of the rows returned for
  \<open>t1\<close>, hence a subset of them.
\<close>

theorem detect_anomalies_monotone:
  assumes "flt_lt t1 t2"
  shows "(case detect_anomalies data features t2 of
            Inl e \<Rightarrow> detect_anomalies data features t1 = Inl e
          | Inr b \<Rightarrow>
              (\<exists>a. detect_anomalies data features t1 = Inr a
                   \<and> columns b = columns a
                   \<and> subseq (rows b) (rows a)
                   \<and> set (rows b) \<subseteq> set (rows a)))"
proof (cases "z_scores data features")
  case (Inl e)
  then show ?thesis by (simp add: detect_anomalies_def)
next
  case (Inr zs)
  let ?m = "\<lambda>t. any_axis1 (map (\<lambda>(name, col). map (\<lambda>z. flt_gt z t) col) zs)"
  have gt: "\<And>z. flt_gt z t2 \<longrightarrow> flt_gt z t1"
  proof -
    fix z show "flt_gt z t2 \<longrightarrow> flt_gt z t1"
      using assms by (cases z; cases t1; cases t2) auto
  qed
  have "list_all2 (list_all2 (\<lambda>a b. a \<longrightarrow> b))
          (map (\<lambda>(name, col). map (\<lambda>z. flt_gt z t2) col) zs)
          (map (\<lambda>(name, col). map (\<lambda>z. flt_gt z t1) col) zs)"
    using gt by (auto simp: list_all2_conv_all_nth split: prod.splits)
  then have imp: "list_all2 (\<lambda>a b. a \<longrightarrow> b) (?m t2) (?m t1)"
    by (rule any_axis1_mono)
  then have len: "length (?m t2) = length (?m t1)"
    by (rule list_all2_lengthD)
  have sub: "subseq (map fst (filter snd (zip (rows data) (?m t2))))
                    (map fst (filter snd (zip (rows data) (?m t1))))"
    using imp by (rule filter_mask_subseq)
  show ?thesis
  proof (cases "length (?m t2) = length (rows data)")
    case True
    then show ?thesis
      using Inr len sub subseq_set [OF sub]
      by (simp add: detect_anomalies_def getitem_bool_def)
  next
    case False
    then show ?thesis
      using Inr len by (simp add: detect_anomalies_def getitem_bool_def)
  qed
qed


theorem detect_anomalies_monotone_witness:
  "flt_lt (Val (1/2)) (Val 2)
   \<and> detect_anomalies tx3 [''amount''] (Val 2) = detect_anomalies tx3 [''amount''] (Val 2)
   \<and> (\<exists>a b. detect_anomalies tx3 [''amount''] (Val 2) = Inr b
          \<and> detect_anomalies tx3 [''amount''] (Val (1/2)) = Inr a
          \<and> subseq (rows b) (rows a) \<and> set (rows b) \<subseteq> set (rows a))"
proof -
  have lt: "flt_lt (Val (1/2)) (Val 2)" by simp
  have run: "detect_anomalies tx3 [''amount''] (Val 2) = Inr (tx3\<lparr> rows := [] \<rparr>)"
    by (simp add: detect_anomalies_def numeric_column_def getitem_def to_numeric_def
        zscore_series_def mean_def std_def sum_sq_dev_def getitem_bool_def tx3_def row_of_def)
  show ?thesis
    using detect_anomalies_monotone [OF lt, of tx3 "[''amount'']"] lt run
    by auto
qed


subsection \<open>\<^verbatim>\<open>calculate_velocity_metrics\<close>\<close>

text \<open>
  A threshold that Python takes for true is applied: the groups are formed over the rows
  whose amount is strictly greater, a missing amount being greater than nothing.
\<close>

lemma velocity_truthy_threshold_filters:
  assumes "truthy t" and "numeric_in data ''amount''"
  shows "calculate_velocity_metrics data time_window (Some t) =
           velocity_groups
             (data\<lparr> rows := filter (\<lambda>r. flt_gt (as_float (r ''amount'')) t) (rows data) \<rparr>)
             time_window"
proof -
  have "map fst (filter snd (zip (rows data)
          (map (\<lambda>v. flt_gt v t) (map (\<lambda>r. as_float (r ''amount'')) (rows data)))))
      = filter (\<lambda>r. flt_gt (as_float (r ''amount'')) t) (rows data)"
    using filter_zip_map [of "rows data" "\<lambda>r. flt_gt (as_float (r ''amount'')) t"]
    by (simp add: comp_def)
  then show ?thesis
    using assms
    by (simp add: calculate_velocity_metrics_def numeric_column_numeric_in getitem_bool_def)
qed

text \<open>
  C1. A threshold was supplied, so only rows with a strictly greater amount should be
  grouped. With the threshold 0 and two transactions of amounts \<open>-5\<close> and \<open>0\<close>, none of
  which is greater than 0, the code still groups both: the count is 2 and the sum \<open>-5\<close>.
\<close>

theorem velocity_zero_threshold_keeps_rows:
  "calculate_velocity_metrics tx_not_positive 3600 (Some (Val 0)) =
     Inr [\<lparr> customer_id = Str ''c1'', time_bucket = 0, transaction_count = 2,
            amount_sum = Val (-5), amount_mean = Val (-5/2) \<rparr>]"
  by (simp add: calculate_velocity_metrics_def velocity_groups_def getitem_def
      datetime_column_def numeric_column_def to_numeric_def velocity_keys_def bin_start_def
      seconds_per_day_def group_keys_def group_of_def count_present_def sum_present_def
      mean_def tx_not_positive_def row_of_def)

text \<open>
  C10. The threshold is tested for its truth value, not for being \<^verbatim>\<open>None\<close>: with the
  threshold 0 no row is filtered out, whatever its amount, and the result is that of the
  call without a threshold.
\<close>

theorem velocity_zero_threshold_unfiltered:
  "select_transactions data (Some (Val 0)) = Inr data
   \<and> calculate_velocity_metrics data time_window (Some (Val 0)) =
       calculate_velocity_metrics data time_window None"
  by (simp add: calculate_velocity_metrics_def)


subsection \<open>Group-by\<close>


lemma key_of_eq: "key_of c = Some k \<longleftrightarrow> c = k \<and> k \<noteq> NA"
  by (cases c) auto

lemma key_of_None: "key_of c = None \<longleftrightarrow> c = NA"
  by (cases c) auto

lemma Some_eq_key_of: "Some k = key_of c \<longleftrightarrow> c = k \<and> k \<noteq> NA"
  by (cases c) auto

lemma group_of_rows:
  "k \<noteq> NA \<Longrightarrow>
   group_of (map (\<lambda>r. key_of (r c)) rs) (map f rs) k = map f (filter (\<lambda>r. r c = k) rs)"
  by (induction rs) (auto simp: group_of_def key_of_eq)

lemma sorted_group_keys: "sorted (group_keys ks)"
  by (simp add: group_keys_def)

lemma distinct_group_keys: "distinct (group_keys ks)"
  by (simp add: group_keys_def)

lemma set_group_keys: "set (group_keys ks) = {k. Some k \<in> set ks}"
  by (force simp: group_keys_def)

lemma set_group_keys_rows:
  "set (group_keys (map (\<lambda>r. key_of (r c)) rs)) = (\<lambda>r. r c) ` set rs - {NA}"
  by (auto simp: set_group_keys Some_eq_key_of image_iff)

lemma require_columns_None:
  "list_all (\<lambda>c. c \<in> set (columns df)) cs \<Longrightarrow> require_columns df cs = None"
  by (induction cs) auto

text \<open>Rounding to two places moves a value by at most half a hundredth, onto a hundredth.\<close>

lemma rint_close: "\<bar>of_int (rint x) - x\<bar> \<le> 1/2"
proof -
  have "of_int \<lfloor>x\<rfloor> \<le> x" and "x < of_int \<lfloor>x\<rfloor> + 1"
    by linarith+
  then show ?thesis
    by (auto simp: rint_def Let_def)
qed

lemma round_to_2_rounded: "rounded_2dp x (round_to 2 x)"
proof (cases x)
  case (Val a)
  let ?n = "rint (a * 100)"
  have "\<bar>of_int ?n - a * 100\<bar> \<le> 1/2"
    by (rule rint_close)
  then have close: "\<bar>of_int ?n / 100 - a\<bar> \<le> 1/200"
    by (simp add: field_simps abs_le_iff)
  have whole: "of_int \<lfloor>(of_int ?n / 100 :: real) * 100\<rfloor> = (of_int ?n / 100 :: real) * 100"
    by simp
  show ?thesis
    using Val close whole by (simp add: rounded_2dp_def)
next
  case NaN
  then show ?thesis by (simp add: rounded_2dp_def)
qed

text \<open>
  C8. \<^verbatim>\<open>segment_analysis\<close> raises \<^verbatim>\<open>KeyError\<close> for a segment column that is not in the schema.
  On a credit frame (its \<^verbatim>\<open>default\<close>, \<^verbatim>\<open>credit_score\<close> and \<^verbatim>\<open>loan_amount\<close> columns numeric) that
  has the segment column, it returns one row for each distinct value present in the
  column, in ascending order of the values; each of the three fields of a row is the mean
  of its column over the rows of that value, rounded to two decimal places: a whole number
  of hundredths within half a hundredth of the mean.
\<close>

theorem segment_analysis_groups:
  "(segment_column \<notin> set (columns data) \<longrightarrow>
      segment_analysis data segment_column = Inl (KeyError segment_column))
   \<and> (segment_column \<in> set (columns data) \<and> numeric_in data ''default''
        \<and> numeric_in data ''credit_score'' \<and> numeric_in data ''loan_amount'' \<longrightarrow>
      (\<exists>res. segment_analysis data segment_column = Inr res
         \<and> sorted (map segment res) \<and> distinct (map segment res)
         \<and> set (map segment res) = segment_values data segment_column
         \<and> list_all (\<lambda>x.
              rounded_2dp (segment_mean data segment_column (segment x) ''default'')
                (default_mean x)
              \<and> rounded_2dp (segment_mean data segment_column (segment x) ''credit_score'')
                  (credit_score_mean x)
              \<and> rounded_2dp (segment_mean data segment_column (segment x) ''loan_amount'')
                  (loan_amount_mean x)) res))"
proof (intro conjI impI)
  assume "segment_column \<notin> set (columns data)"
  then show "segment_analysis data segment_column = Inl (KeyError segment_column)"
    by (simp add: segment_analysis_def getitem_def)
next
  assume a: "segment_column \<in> set (columns data) \<and> numeric_in data ''default''
        \<and> numeric_in data ''credit_score'' \<and> numeric_in data ''loan_amount''"
  let ?keys = "map (\<lambda>r. key_of (r segment_column)) (rows data)"
  let ?col = "\<lambda>c. map (\<lambda>r. as_float (r c)) (rows data)"
  let ?row = "\<lambda>k. \<lparr> segment = k,
                      default_mean = round_to 2 (mean (group_of ?keys (?col ''default'') k)),
                      credit_score_mean = round_to 2 (mean (group_of ?keys (?col ''credit_score'') k)),
                      loan_amount_mean = round_to 2 (mean (group_of ?keys (?col ''loan_amount'') k)) \<rparr>"
  let ?res = "map ?row (group_keys ?keys)"
  let ?ok = "\<lambda>x. rounded_2dp (segment_mean data segment_column (segment x) ''default'')
                (default_mean x)
              \<and> rounded_2dp (segment_mean data segment_column (segment x) ''credit_score'')
                  (credit_score_mean x)
              \<and> rounded_2dp (segment_mean data segment_column (segment x) ''loan_amount'')
                  (loan_amount_mean x)"
  have req: "require_columns data [''default'', ''credit_score'', ''loan_amount''] = None"
    using a by (simp add: numeric_in_def)
  have run: "segment_analysis data segment_column = Inr ?res"
    using a req
    by (simp add: segment_analysis_def getitem_def numeric_column_numeric_in Let_def comp_def)
  have seg: "map segment ?res = group_keys ?keys"
    by (simp add: comp_def)
  have means: "list_all ?ok ?res"
  proof -
    have "\<And>k. k \<in> set (group_keys ?keys) \<Longrightarrow> k \<noteq> NA"
      by (simp add: set_group_keys_rows)
    then show ?thesis
      by (simp add: list_all_iff segment_mean_def group_of_rows round_to_2_rounded)
  qed
  show "\<exists>res. segment_analysis data segment_column = Inr res
         \<and> sorted (map segment res) \<and> distinct (map segment res)
         \<and> set (map segment res) = segment_values data segment_column
         \<and> list_all ?ok res"
    apply (rule exI [of _ ?res])
    apply (intro conjI)
        apply (rule run)
       apply (simp only: seg sorted_group_keys)
      apply (simp only: seg distinct_group_keys)
     apply (simp only: seg set_group_keys_rows segment_values_def)
    apply (rule means)
    done
qed

text \<open>
  In the north the mean loan amount is 100.0075, which rounds up to 100.01 (cutting the
  digits off would give 100.00).
\<close>

theorem segment_analysis_groups_witness:
  "''branch'' \<notin> set (columns credit_regions)
   \<and> segment_analysis credit_regions ''branch'' = Inl (KeyError ''branch'')
   \<and> ''region'' \<in> set (columns credit_regions)
   \<and> numeric_in credit_regions ''default''
   \<and> numeric_in credit_regions ''credit_score''
   \<and> numeric_in credit_regions ''loan_amount''
   \<and> segment_mean credit_regions ''region'' (Str ''north'') ''loan_amount'' = Val (1000075/10000)
   \<and> rounded_2dp (Val (1000075/10000)) (Val (10001/100))
   \<and> \<not> rounded_2dp (Val (1000075/10000)) (Val 100)
   \<and> segment_analysis credit_regions ''region'' =
        Inr [\<lparr> segment = Str ''north'', default_mean = Val (1/2),
               credit_score_mean = Val (1401/2), loan_amount_mean = Val (10001/100) \<rparr>,
             \<lparr> segment = Str ''south'', default_mean = Val 1,
               credit_score_mean = Val 580, loan_amount_mean = Val 1000 \<rparr>]"
proof -
  have absent: "''branch'' \<notin> set (columns credit_regions)"
    by (simp add: credit_regions_def)
  have numeric: "numeric_in credit_regions ''default''"
    "numeric_in credit_regions ''credit_score''" "numeric_in credit_regions ''loan_amount''"
    by (simp_all add: numeric_in_def credit_regions_def row_of_def)
  have north: "segment_mean credit_regions ''region'' (Str ''north'') ''loan_amount''
      = Val (1000075/10000)"
    by (simp add: segment_mean_def mean_def credit_regions_def row_of_def)
  have up: "rounded_2dp (Val (1000075/10000)) (Val (10001/100))"
    by (simp add: rounded_2dp_def)
  have down: "\<not> rounded_2dp (Val (1000075/10000)) (Val 100)"
    by (simp add: rounded_2dp_def)
  have run: "segment_analysis credit_regions ''region'' =
        Inr [\<lparr> segment = Str ''north'', default_mean = Val (1/2),
               credit_score_mean = Val (1401/2), loan_amount_mean = Val (10001/100) \<rparr>,
             \<lparr> segment = Str ''south'', default_mean = Val 1,
               credit_score_mean = Val 580, loan_amount_mean = Val 1000 \<rparr>]"
    by (simp add: segment_analysis_def getitem_def numeric_column_def to_numeric_def
        group_keys_def group_of_def mean_def rint_def credit_regions_def row_of_def
        less_eq_cell_def)
  have present: "''region'' \<in> set (columns credit_regions)"
    by (simp add: credit_regions_def)
  show ?thesis
    using segment_analysis_groups [of "''branch''" credit_regions] absent numeric north up down
      run present
    by simp
qed

subsection \<open>\<^verbatim>\<open>get_high_risk_merchants\<close>\<close>


lemma count_present_map: "count_present (map f xs) = length (filter (\<lambda>x. f x \<noteq> NA) xs)"
  by (induction xs) (auto simp: count_present_def)

lemma merchant_risk_rows:
  assumes "''merchant_category'' \<in> set (columns data)"
    and "''transaction_id'' \<in> set (columns data)"
    and "numeric_in data ''is_fraud''"
  shows "merchant_risk data =
           Inr (map (category_row data)
                  (group_keys (map (\<lambda>r. key_of (r ''merchant_category'')) (rows data))))"
proof -
  let ?keys = "map (\<lambda>r. key_of (r ''merchant_category'')) (rows data)"
  have req: "require_columns data [''transaction_id'', ''is_fraud''] = None"
    using assms by (simp add: numeric_in_def)
  have rows_eq: "\<And>k. k \<in> set (group_keys ?keys) \<Longrightarrow>
      \<lparr> merchant_category = k,
        n_transactions = count_present (group_of ?keys (map (\<lambda>r. r ''transaction_id'') (rows data)) k),
        fraud_rate = mean (group_of ?keys (map (\<lambda>r. as_float (r ''is_fraud'')) (rows data)) k) \<rparr>
      = category_row data k"
  proof -
    fix k assume "k \<in> set (group_keys ?keys)"
    then have "k \<noteq> NA" by (simp add: set_group_keys_rows)
    then show "\<lparr> merchant_category = k,
        n_transactions = count_present (group_of ?keys (map (\<lambda>r. r ''transaction_id'') (rows data)) k),
        fraud_rate = mean (group_of ?keys (map (\<lambda>r. as_float (r ''is_fraud'')) (rows data)) k) \<rparr>
      = category_row data k"
      by (simp add: group_of_rows category_row_def count_present_map)
  qed
  show ?thesis
    using assms req rows_eq
    by (simp add: merchant_risk_def getitem_def numeric_column_numeric_in Let_def comp_def
        cong: map_cong)
qed

lemma present_all_Val: "present (map Val xs) = xs"
  by (induction xs) auto

lemma map_Val_of_present: "list_all (\<lambda>v. v \<noteq> NaN) xs \<Longrightarrow> \<exists>ys. xs = map Val ys"
proof (induction xs)
  case Nil
  then show ?case by simp
next
  case (Cons a xs)
  then obtain ys where "xs = map Val ys" by auto
  moreover obtain y where "a = Val y" using Cons.prems by (cases a) auto
  ultimately have "a # xs = map Val (y # ys)" by simp
  then show ?case by (rule exI [of _ "y # ys"])
qed

lemma sorts_ascending_perm:
  assumes "sorts_ascending idx xs"
  shows "distinct idx" and "set idx = {..<length xs}" and "sorted (map ((!) xs) idx)"
proof -
  have s: "sort idx = [0..<length xs]"
    using assms by (simp add: sorts_ascending_def)
  have "distinct (sort idx)"
    unfolding s by simp
  then show "distinct idx"
    by simp
  have "set (sort idx) = {..<length xs}"
    unfolding s by (simp add: atLeast0LessThan)
  then show "set idx = {..<length xs}"
    by simp
  show "sorted (map ((!) xs) idx)"
    using assms by (simp add: sorts_ascending_def)
qed

lemma nargsort_desc_no_NaN:
  assumes rng: "set (argsort (rev ys)) = {..<length ys}"
  shows "nargsort_desc argsort (map Val ys) =
           rev (map (\<lambda>j. length ys - 1 - j) (argsort (rev ys)))"
proof -
  let ?n = "length ys"
  let ?items = "map Val ys"
  have f1: "filter (\<lambda>i. ?items ! i \<noteq> NaN) [0..<?n] = [0..<?n]"
    by (rule filter_True) simp
  have f2: "filter (\<lambda>i. ?items ! i = NaN) [0..<?n] = []"
    by (rule filter_False) simp
  have "map ((!) ?items) [0..<length ?items] = ?items"
    by (rule map_nth)
  then have "rev (map ((!) ?items) [0..<?n]) = rev ?items"
    by (simp only: length_map)
  then have m: "map ((!) ?items) (rev [0..<?n]) = rev ?items"
    by (simp only: rev_map)
  have nn: "present (map ((!) ?items) (rev [0..<?n])) = rev ys"
  proof -
    have "rev (map Val ys) = map Val (rev ys)"
      by (rule rev_map)
    then show ?thesis
      unfolding m by (simp only: present_all_Val)
  qed
  have idx: "map ((!) (rev [0..<?n])) (argsort (rev ys))
      = map (\<lambda>j. ?n - 1 - j) (argsort (rev ys))"
  proof (rule map_cong [OF refl])
    fix j assume "j \<in> set (argsort (rev ys))"
    then have "j < ?n" using rng by simp
    then show "rev [0..<?n] ! j = ?n - 1 - j"
      by (simp add: rev_nth)
  qed
  show ?thesis
    by (simp only: nargsort_desc_def Let_def length_map f1 f2 nn idx append_Nil2)
qed

lemma sort_by_fraud_desc_no_NaN:
  assumes rng: "set (argsort (rev ys)) = {..<length ys}"
    and vals: "map fraud_rate rs = map Val ys"
  shows "sort_by_fraud_desc argsort rs = rev (map ((!) (rev rs)) (argsort (rev ys)))"
proof -
  have len: "length ys = length rs"
    using arg_cong [OF vals, of length] by simp
  have "map ((!) rs) (map (\<lambda>j. length ys - 1 - j) (argsort (rev ys)))
      = map ((!) (rev rs)) (argsort (rev ys))"
  proof (simp only: map_map, rule map_cong [OF refl])
    fix j assume "j \<in> set (argsort (rev ys))"
    then have "j < length rs" using rng len by simp
    then show "((!) rs \<circ> (\<lambda>j. length ys - 1 - j)) j = rev rs ! j"
      using len by (simp add: rev_nth)
  qed
  then show ?thesis
    by (simp add: sort_by_fraud_desc_def vals nargsort_desc_no_NaN [where argsort = argsort, OF rng] rev_map)
qed

lemma set_map_nth_perm:
  assumes "set a = {..<length qs}"
  shows "set (map ((!) qs) a) = set qs"
proof -
  have "set (map ((!) qs) a) = (!) qs ` {..<length qs}"
    using assms by simp
  also have "\<dots> = set qs"
    by (auto simp: set_conv_nth)
  finally show ?thesis .
qed

lemma distinct_map_nth_perm:
  assumes "distinct a" and "set a = {..<length qs}" and "distinct (map f qs)"
  shows "distinct (map f (map ((!) qs) a))"
proof -
  have "inj_on (\<lambda>j. f (qs ! j)) (set a)"
  proof (rule inj_onI)
    fix i j assume "i \<in> set a" "j \<in> set a" "f (qs ! i) = f (qs ! j)"
    then have "i < length qs" "j < length qs" "map f qs ! i = map f qs ! j"
      using assms(2) by auto
    then show "i = j"
      using nth_eq_iff_index_eq [OF assms(3), of i j] by simp
  qed
  then show ?thesis
    using assms(1) by (simp add: distinct_map comp_def)
qed

lemma sorted_desc_rates:
  assumes "set a = {..<length qs}" and "map fraud_rate qs = map Val zs"
    and "sorted (map ((!) zs) a)"
  shows "sorted_wrt (\<lambda>x y. flt_ge (fraud_rate x) (fraud_rate y)) (rev (map ((!) qs) a))"
proof -
  have len: "length zs = length qs"
    using arg_cong [OF assms(2), of length] by simp
  have eq: "map fraud_rate (map ((!) qs) a) = map Val (map ((!) zs) a)"
  proof (simp only: map_map, rule map_cong [OF refl])
    fix j assume "j \<in> set a"
    then have j: "j < length qs" using assms(1) by simp
    then have "fraud_rate (qs ! j) = map fraud_rate qs ! j" by simp
    also have "\<dots> = Val (zs ! j)" using j len by (simp add: assms(2))
    finally show "(fraud_rate \<circ> (!) qs) j = (Val \<circ> (!) zs) j" by simp
  qed
  have "sorted_wrt (\<lambda>x y. flt_ge y x) (map Val (map ((!) zs) a))"
    using assms(3) by (simp add: sorted_wrt_map del: map_map)
  then have "sorted_wrt (\<lambda>x y. flt_ge y x) (map fraud_rate (map ((!) qs) a))"
    by (simp only: eq)
  then have "sorted_wrt (\<lambda>x y. flt_ge (fraud_rate y) (fraud_rate x)) (map ((!) qs) a)"
    by (simp only: sorted_wrt_map)
  then show ?thesis
    by (simp add: sorted_wrt_rev)
qed


lemma category_row_key: "merchant_category (category_row data k) = k"
  by (simp add: category_row_def Let_def)

lemma flt_ge_not_NaN: "flt_ge v t \<Longrightarrow> v \<noteq> NaN"
  by (cases v) auto

text \<open>
  C5 (as amended). On a frame with the \<^verbatim>\<open>merchant_category\<close> and \<^verbatim>\<open>transaction_id\<close>
  columns and a numeric \<^verbatim>\<open>is_fraud\<close> column, and with an \<^verbatim>\<open>argsort\<close> that sorts the
  fraud rates it is handed, \<^verbatim>\<open>get_high_risk_merchants\<close> raises nothing and returns exactly
  the category groups whose transaction count is at least \<^verbatim>\<open>min_transactions\<close> and whose
  fraud rate is at least \<^verbatim>\<open>risk_threshold\<close>, each once, in descending order of fraud rate;
  it returns the empty result when no group qualifies. Nothing is said of the order among
  groups of equal fraud rate.
\<close>

theorem high_risk_merchants_exact:
  assumes "''merchant_category'' \<in> set (columns data)"
    and "''transaction_id'' \<in> set (columns data)"
    and "numeric_in data ''is_fraud''"
    and "sorts_ascending
           (argsort (rev (high_risk_rates data min_transactions risk_threshold)))
           (rev (high_risk_rates data min_transactions risk_threshold))"
  shows "\<exists>res. get_high_risk_merchants argsort data min_transactions risk_threshold = Inr res
           \<and> set res = {category_row data k | k.
                 k \<in> categories data
                 \<and> qualifies min_transactions risk_threshold (category_row data k)}
           \<and> distinct (map merchant_category res)
           \<and> sorted_wrt (\<lambda>a b. flt_ge (fraud_rate a) (fraud_rate b)) res
           \<and> ((\<forall>k \<in> categories data.
                  \<not> qualifies min_transactions risk_threshold (category_row data k))
                \<longrightarrow> res = [])"
proof -
  let ?keys = "sorted_categories data"
  let ?q = "qualifies min_transactions risk_threshold"
  let ?hr = "filter ?q (map (category_row data) ?keys)"
  let ?res = "sort_by_fraud_desc argsort ?hr"
  have run: "get_high_risk_merchants argsort data min_transactions risk_threshold = Inr ?res"
    using merchant_risk_rows [OF assms(1-3)]
    by (simp add: get_high_risk_merchants_def qualifies_def [abs_def] sorted_categories_def)
  have keys: "set ?keys = categories data"
    by (simp add: set_group_keys_rows categories_def sorted_categories_def)
  have "list_all (\<lambda>v. v \<noteq> NaN) (map fraud_rate ?hr)"
    by (auto simp: list_all_iff qualifies_def dest: flt_ge_not_NaN)
  then obtain ys where ys: "map fraud_rate ?hr = map Val ys"
    using map_Val_of_present by blast
  have rates: "high_risk_rates data min_transactions risk_threshold = ys"
    by (simp only: high_risk_rates_def ys present_all_Val)
  have len: "length ys = length ?hr"
    using arg_cong [OF ys, of length] by simp
  let ?a = "argsort (rev ys)"
  have srt_a: "sorts_ascending ?a (rev ys)"
    using assms(4) by (simp only: rates)
  have a_distinct: "distinct ?a" and a_set0: "set ?a = {..<length ys}"
    and a_sorted: "sorted (map ((!) (rev ys)) ?a)"
    using sorts_ascending_perm [OF srt_a] by simp_all
  have a_set: "set ?a = {..<length (rev ?hr)}"
    using a_set0 len by simp
  have res: "?res = rev (map ((!) (rev ?hr)) ?a)"
    using a_set0 ys by (rule sort_by_fraud_desc_no_NaN [where argsort = argsort])
  have set_res: "set ?res = set ?hr"
    unfolding res using set_map_nth_perm [OF a_set] by simp
  have hr_set: "set ?hr = {category_row data k | k. k \<in> categories data \<and> ?q (category_row data k)}"
    using keys by auto
  have "distinct (map merchant_category (map (category_row data) ?keys))"
    by (simp add: comp_def category_row_key distinct_group_keys sorted_categories_def)
  then have "distinct (map merchant_category ?hr)"
    by (simp only: distinct_map_filter)
  then have "distinct (map merchant_category (rev ?hr))"
    by (simp add: rev_map [symmetric])
  then have "distinct (map merchant_category (map ((!) (rev ?hr)) ?a))"
    using a_distinct a_set by (intro distinct_map_nth_perm)
  then have dist: "distinct (map merchant_category ?res)"
    unfolding res by (simp only: rev_map [symmetric] distinct_rev)
  have "rev (map fraud_rate ?hr) = rev (map Val ys)"
    by (simp only: ys)
  then have "map fraud_rate (rev ?hr) = map Val (rev ys)"
    by (simp only: rev_map)
  then have srt: "sorted_wrt (\<lambda>a b. flt_ge (fraud_rate a) (fraud_rate b)) ?res"
    unfolding res using a_set a_sorted by (intro sorted_desc_rates)
  have empty: "(\<forall>k \<in> categories data. \<not> ?q (category_row data k)) \<longrightarrow> ?res = []"
  proof
    assume "\<forall>k \<in> categories data. \<not> ?q (category_row data k)"
    then have "set ?res = {}"
      unfolding set_res hr_set by blast
    then show "?res = []" by simp
  qed
  show ?thesis
    apply (rule exI [of _ ?res])
    apply (intro conjI)
        apply (rule run)
       apply (simp only: set_res hr_set)
      apply (rule dist)
     apply (rule srt)
    apply (rule empty)
    done
qed

text \<open>
  With numpy's scalar \<^verbatim>\<open>argsort\<close>: two categories qualify and come out by their rate; with
  a minimum of 100 transactions none qualifies and the result is empty.
\<close>

theorem high_risk_merchants_exact_witness:
  "''merchant_category'' \<in> set (columns tx_tied)
   \<and> ''transaction_id'' \<in> set (columns tx_tied)
   \<and> numeric_in tx_tied ''is_fraud''
   \<and> high_risk_rates tx_tied 1 (Val (1/10)) = [1/2, 1/2]
   \<and> sorts_ascending (numpy_argsort (rev (high_risk_rates tx_tied 1 (Val (1/10)))))
       (rev (high_risk_rates tx_tied 1 (Val (1/10))))
   \<and> get_high_risk_merchants numpy_argsort tx_tied 1 (Val (1/10)) =
       Inr [\<lparr> merchant_category = Str ''grocery'', n_transactions = 2, fraud_rate = Val (1/2) \<rparr>,
            \<lparr> merchant_category = Str ''travel'', n_transactions = 2, fraud_rate = Val (1/2) \<rparr>]
   \<and> get_high_risk_merchants numpy_argsort tx_tied 100 (Val (1/10)) = Inr []"
proof -
  have cols: "''merchant_category'' \<in> set (columns tx_tied)"
    "''transaction_id'' \<in> set (columns tx_tied)"
    by (simp_all add: tx_tied_def)
  have num: "numeric_in tx_tied ''is_fraud''"
    by (simp add: numeric_in_def tx_tied_def row_of_def)
  have rates: "high_risk_rates tx_tied 1 (Val (1/10)) = [1/2, 1/2]"
    by (simp add: high_risk_rates_def sorted_categories_def category_row_def qualifies_def
        group_keys_def mean_def tx_tied_def row_of_def less_eq_cell_def)
  have arg: "numpy_argsort [1/2, 1/2] = [0, 1]"
    by code_simp
  have arg0: "numpy_argsort [] = []"
    by code_simp
  have srt: "sorts_ascending (numpy_argsort (rev (high_risk_rates tx_tied 1 (Val (1/10)))))
       (rev (high_risk_rates tx_tied 1 (Val (1/10))))"
    by (simp add: rates arg sorts_ascending_def)
  have run: "get_high_risk_merchants numpy_argsort tx_tied 1 (Val (1/10)) =
       Inr [\<lparr> merchant_category = Str ''grocery'', n_transactions = 2, fraud_rate = Val (1/2) \<rparr>,
            \<lparr> merchant_category = Str ''travel'', n_transactions = 2, fraud_rate = Val (1/2) \<rparr>]"
    by (simp add: get_high_risk_merchants_def merchant_risk_def getitem_def numeric_column_def
        to_numeric_def group_keys_def group_of_def count_present_def mean_def tx_tied_def
        row_of_def less_eq_cell_def sort_by_fraud_desc_def nargsort_desc_def arg)
  have none: "get_high_risk_merchants numpy_argsort tx_tied 100 (Val (1/10)) = Inr []"
    by (simp add: get_high_risk_merchants_def merchant_risk_def getitem_def numeric_column_def
        to_numeric_def group_keys_def group_of_def count_present_def mean_def tx_tied_def
        row_of_def less_eq_cell_def sort_by_fraud_desc_def nargsort_desc_def arg0)
  show ?thesis
    using high_risk_merchants_exact [where argsort = numpy_argsort, OF cols num srt]
      cols num rates srt run none
    by simp
qed

text \<open>
  The claim as stated fails. All eighteen categories of \<open>merchants18\<close> qualify, with the
  same fraud rate. pandas reverses the eighteen rates and hands them to \<^verbatim>\<open>argsort\<close>; more
  than 17 values are partitioned, and the partition of equal values swaps the positions
  1 to 7 with the positions 15 to 9. Reversed back, \<^verbatim>\<open>m17\<close> is returned before \<^verbatim>\<open>m16\<close>, and
  so on down to \<^verbatim>\<open>m03\<close>: equal fraud rates in descending order of the key.
\<close>

theorem high_risk_merchants_ties_counterexample:
  "numpy_argsort (rev (high_risk_rates merchants18 1 (Val (1/10)))) =
     [0, 15, 14, 13, 12, 11, 10, 9, 8, 7, 6, 5, 4, 3, 2, 1, 16, 17]
   \<and> Str ''m16'' < Str ''m17''
   \<and> get_high_risk_merchants numpy_argsort merchants18 1 (Val (1/10)) =
       Inr (map tied_row
              [''m01'', ''m02'', ''m17'', ''m16'', ''m15'', ''m14'', ''m13'', ''m12'', ''m11'',
               ''m10'', ''m09'', ''m08'', ''m07'', ''m06'', ''m05'', ''m04'', ''m03'', ''m18''])"
proof -
  have arg: "numpy_argsort [1, 1, 1, 1, 1, 1, 1, 1, 1, 1, 1, 1, 1, 1, 1, 1, 1, 1] =
      [0, 15, 14, 13, 12, 11, 10, 9, 8, 7, 6, 5, 4, 3, 2, 1, 16, 17]"
    by code_simp
  have risk: "merchant_risk merchants18 =
      Inr (map tied_row
             [''m01'', ''m02'', ''m03'', ''m04'', ''m05'', ''m06'', ''m07'', ''m08'', ''m09'',
              ''m10'', ''m11'', ''m12'', ''m13'', ''m14'', ''m15'', ''m16'', ''m17'', ''m18''])"
    by (simp add: merchant_risk_def getitem_def numeric_column_def to_numeric_def
        group_keys_def group_of_def count_present_def mean_def merchants18_def one_fraud_def
        tied_row_def row_of_def less_eq_cell_def)
  have rates: "high_risk_rates merchants18 1 (Val (1/10)) =
      [1, 1, 1, 1, 1, 1, 1, 1, 1, 1, 1, 1, 1, 1, 1, 1, 1, 1]"
    by (simp add: high_risk_rates_def sorted_categories_def category_row_def qualifies_def
        group_keys_def mean_def merchants18_def one_fraud_def row_of_def less_eq_cell_def)
  have run: "get_high_risk_merchants numpy_argsort merchants18 1 (Val (1/10)) =
       Inr (map tied_row
              [''m01'', ''m02'', ''m17'', ''m16'', ''m15'', ''m14'', ''m13'', ''m12'', ''m11'',
               ''m10'', ''m09'', ''m08'', ''m07'', ''m06'', ''m05'', ''m04'', ''m03'', ''m18''])"
    by (simp add: get_high_risk_merchants_def risk tied_row_def sort_by_fraud_desc_def
        nargsort_desc_def arg)
  have lt: "Str ''m16'' < Str ''m17''"
    by (simp add: less_cell_def)
  show ?thesis
    using arg rates lt run by simp
qed

subsection \<open>\<^verbatim>\<open>risk_correlation_analysis\<close>\<close>


lemma complete_pairs_same: "complete_pairs xs xs = map (\<lambda>x. (x, x)) (present xs)"
  by (induction xs rule: present.induct) auto

lemma sum_sq_dev_nonneg: "0 \<le> sum_sq_dev p"
  unfolding sum_sq_dev_def Let_def by (rule sum_list_nonneg) auto

lemma nancorr_entry_diag:
  assumes "std xs = Val s" and "s \<noteq> 0"
  shows "nancorr_entry xs xs = Val 1"
proof -
  let ?p = "present xs"
  let ?S = "sum_sq_dev ?p"
  have len: "\<not> length ?p < 2"
    using assms(1) by (auto simp: std_def Let_def split: if_splits)
  have "sqrt (?S / real (length ?p - 1)) \<noteq> 0"
    using assms len by (simp add: std_def Let_def)
  then have S0: "?S \<noteq> 0"
    by auto
  have Spos: "0 < ?S"
    using S0 sum_sq_dev_nonneg [of ?p] by linarith
  have sx: "(\<Sum>q\<leftarrow>map (\<lambda>x. (x, x)) ?p. (fst q - sum_list ?p / real (length ?p))\<^sup>2) = ?S"
    by (simp add: sum_sq_dev_def comp_def Let_def)
  have cv: "(\<Sum>q\<leftarrow>map (\<lambda>x. (x, x)) ?p.
        (fst q - sum_list ?p / real (length ?p)) * (snd q - sum_list ?p / real (length ?p))) = ?S"
    by (simp add: sum_sq_dev_def comp_def power2_eq_square Let_def)
  have m: "(\<Sum>q\<leftarrow>map (\<lambda>x. (x, x)) ?p. fst q) = sum_list ?p"
    "(\<Sum>q\<leftarrow>map (\<lambda>x. (x, x)) ?p. snd q) = sum_list ?p"
    by (simp_all add: comp_def)
  have sy: "(\<Sum>q\<leftarrow>map (\<lambda>x. (x, x)) ?p. (snd q - sum_list ?p / real (length ?p))\<^sup>2) = ?S"
    by (simp add: sum_sq_dev_def comp_def Let_def)
  have d: "sqrt (?S * ?S) = ?S"
    using Spos by (simp add: real_sqrt_mult)
  show ?thesis
    unfolding nancorr_entry_def complete_pairs_same Let_def length_map m sx sy cv d
    using len Spos by auto
qed

lemma nancorr_nth:
  "i < length mat \<Longrightarrow> j < length mat \<Longrightarrow>
   nancorr mat ! i ! j =
     (if j \<le> i then nancorr_entry (mat ! i) (mat ! j) else nancorr_entry (mat ! j) (mat ! i))"
  by (simp add: nancorr_def)

lemma nancorr_symmetric:
  "i < length mat \<Longrightarrow> j < length mat \<Longrightarrow> nancorr mat ! i ! j = nancorr mat ! j ! i"
  by (auto simp: nancorr_nth)

lemma nancorr_shape:
  "length (nancorr mat) = length mat \<and> list_all (\<lambda>row. length row = length mat) (nancorr mat)"
  by (simp add: nancorr_def list_all_iff)

lemma require_columns_numeric:
  "list_all (numeric_in data) fs \<Longrightarrow> require_columns data fs = None"
  by (induction fs) (auto simp: numeric_in_def)

text \<open>
  C7. For a list of features that are numeric columns with nonzero variance,
  \<^verbatim>\<open>risk_correlation_analysis\<close> returns a square matrix labelled by the features in the
  given order; the matrix is symmetric and every diagonal entry is 1.
\<close>

theorem correlation_symmetric_unit_diagonal:
  assumes "list_all (numeric_in data) features" and "list_all (has_variance data) features"
  shows "\<exists>m. risk_correlation_analysis data features = Inr m
           \<and> labels m = features
           \<and> length (entries m) = length features
           \<and> list_all (\<lambda>row. length row = length features) (entries m)
           \<and> (\<forall>i < length features. \<forall>j < length features.
                 entries m ! i ! j = entries m ! j ! i)
           \<and> (\<forall>i < length features. entries m ! i ! i = Val 1)"
proof -
  let ?mat = "map (\<lambda>f. map (\<lambda>r. as_float (r f)) (rows data)) features"
  let ?m = "\<lparr> labels = features, entries = nancorr ?mat \<rparr>"
  have run: "risk_correlation_analysis data features = Inr ?m"
    using assms(1) by (simp add: risk_correlation_analysis_def require_columns_numeric)
  have len: "length ?mat = length features" by simp
  have diag: "\<forall>i < length features. nancorr ?mat ! i ! i = Val 1"
  proof (intro allI impI)
    fix i assume i: "i < length features"
    then have "has_variance data (features ! i)"
      using assms(2) by (simp add: list_all_length)
    then obtain s where "std (?mat ! i) = Val s" "s \<noteq> 0"
      using i by (auto simp: has_variance_def split: flt.splits)
    then have "nancorr_entry (?mat ! i) (?mat ! i) = Val 1"
      by (rule nancorr_entry_diag)
    then show "nancorr ?mat ! i ! i = Val 1"
      using i by (simp add: nancorr_nth)
  qed
  have sym: "\<forall>i < length features. \<forall>j < length features.
      nancorr ?mat ! i ! j = nancorr ?mat ! j ! i"
    using nancorr_symmetric [of _ ?mat] by simp
  show ?thesis
    using run nancorr_shape [of ?mat] diag sym by simp
qed


theorem correlation_symmetric_unit_diagonal_witness:
  "list_all (numeric_in credit_opposed) [''credit_score'', ''loan_amount'']
   \<and> list_all (has_variance credit_opposed) [''credit_score'', ''loan_amount'']
   \<and> risk_correlation_analysis credit_opposed [''credit_score'', ''loan_amount''] =
       Inr \<lparr> labels = [''credit_score'', ''loan_amount''],
             entries = [[Val 1, Val (-1)], [Val (-1), Val 1]] \<rparr>"
proof -
  have num: "list_all (numeric_in credit_opposed) [''credit_score'', ''loan_amount'']"
    by (simp add: numeric_in_def credit_opposed_def row_of_def)
  have var: "list_all (has_variance credit_opposed) [''credit_score'', ''loan_amount'']"
    by (simp add: has_variance_def std_def sum_sq_dev_def credit_opposed_def row_of_def)
  have run: "risk_correlation_analysis credit_opposed [''credit_score'', ''loan_amount''] =
       Inr \<lparr> labels = [''credit_score'', ''loan_amount''],
             entries = [[Val 1, Val (-1)], [Val (-1), Val 1]] \<rparr>"
    by (simp add: risk_correlation_analysis_def numeric_in_def nancorr_def nancorr_entry_def
        credit_opposed_def row_of_def)
  show ?thesis
    using correlation_symmetric_unit_diagonal [OF num var] num var run
    by simp
qed


subsection \<open>\<^verbatim>\<open>clean_numeric\<close>\<close>


lemma as_float_of_float: "as_float (of_float v) = v"
  by (cases v) auto

lemma is_numeric_of_float: "is_numeric (of_float v)"
  by (cases v) auto

lemma map_update_zip:
  "length rs = length vals \<Longrightarrow>
   map (\<lambda>r. r c') (map (\<lambda>rv. (fst rv)(c := of_float (snd rv))) (zip rs vals))
     = (if c' = c then map of_float vals else map (\<lambda>r. r c') rs)"
  by (induction rs vals rule: list_induct2) auto

lemma column_cells_setitem:
  assumes "length vals = length (rows df)"
  shows "column_cells (setitem df c vals) c' =
           (if c' = c then map of_float vals else column_cells df c')"
  using map_update_zip [of "rows df" vals c' c] assms
  by (simp add: column_cells_def setitem_def)

lemma columns_setitem: "c \<in> set (columns df) \<Longrightarrow> columns (setitem df c vals) = columns df"
  by (simp add: setitem_def)

lemma length_rows_setitem:
  "length vals = length (rows df) \<Longrightarrow> length (rows (setitem df c vals)) = length (rows df)"
  by (simp add: setitem_def)

lemma numeric_column_cells:
  "numeric_in df c \<Longrightarrow> numeric_column df c = Inr (map as_float (column_cells df c))"
  by (simp add: numeric_column_numeric_in column_cells_def comp_def)

lemma numeric_in_cells:
  "numeric_in df c \<longleftrightarrow> c \<in> set (columns df) \<and> list_all is_numeric (column_cells df c)"
  by (simp add: numeric_in_def column_cells_def list_all_iff)

lemma fillna_as_case:
  "fillna m s = map (\<lambda>v. case v of NaN \<Rightarrow> m | Val x \<Rightarrow> Val x) s"
  unfolding fillna_def by (rule map_cong) (auto split: flt.splits)

lemma clip_upper_as_if: "clip_upper u xs = map (\<lambda>v. if flt_gt v u then u else v) xs"
proof (cases u)
  case (Val b)
  have "\<And>v. clip_value b v = (if flt_gt v (Val b) then Val b else v)"
  proof -
    fix v show "clip_value b v = (if flt_gt v (Val b) then Val b else v)"
      by (cases v) (auto simp: min_def)
  qed
  then show ?thesis using Val by simp
next
  case NaN
  have "\<And>v. flt_gt v NaN = False"
  proof -
    fix v show "flt_gt v NaN = False" by (cases v) auto
  qed
  then show ?thesis using NaN by simp
qed

lemma clean_column_result:
  assumes "numeric_in df c"
  shows "\<exists>df'. clean_column df c = Inr df'
           \<and> columns df' = columns df
           \<and> length (rows df') = length (rows df)
           \<and> (\<forall>c'. column_cells df' c' =
                 (if c' = c then map of_float (cleaned_series (map as_float (column_cells df c)))
                  else column_cells df c'))"
proof -
  let ?s = "map as_float (column_cells df c)"
  let ?filled = "fillna (median ?s) ?s"
  let ?df1 = "setitem df c ?filled"
  let ?q = "quantile ?filled (99/100)"
  let ?df2 = "setitem ?df1 c (clip_upper ?q ?filled)"
  have cin: "c \<in> set (columns df)"
    using assms by (simp add: numeric_in_def)
  have len0: "length ?filled = length (rows df)"
    by (simp add: fillna_def column_cells_def)
  have col1: "column_cells ?df1 c = map of_float ?filled"
    using column_cells_setitem [OF len0, of c c] by simp
  have cols1: "columns ?df1 = columns df"
    using cin by (rule columns_setitem)
  have len1: "length (rows ?df1) = length (rows df)"
    using len0 by (rule length_rows_setitem)
  have num1: "numeric_in ?df1 c"
    using cin by (simp add: numeric_in_cells col1 cols1 list_all_iff is_numeric_of_float)
  have read1: "numeric_column ?df1 c = Inr ?filled"
    using numeric_column_cells [OF num1]
    by (simp add: col1 comp_def as_float_of_float)
  have run: "clean_column df c = Inr ?df2"
    by (simp add: clean_column_def numeric_column_cells [OF assms] read1 Let_def)
  have len2: "length (clip_upper ?q ?filled) = length (rows ?df1)"
    using len1 len0 by (simp add: clip_upper_as_if)
  have cols2: "columns ?df2 = columns df"
    using cin cols1 by (simp add: columns_setitem)
  have rows2: "length (rows ?df2) = length (rows df)"
    using length_rows_setitem [OF len2] len1 by simp
  have cleaned: "clip_upper ?q ?filled = cleaned_series ?s"
    by (simp add: cleaned_series_def Let_def clip_upper_as_if fillna_as_case)
  have cells2: "\<forall>c'. column_cells ?df2 c' =
                 (if c' = c then map of_float (cleaned_series ?s) else column_cells df c')"
  proof
    fix c'
    show "column_cells ?df2 c' =
        (if c' = c then map of_float (cleaned_series ?s) else column_cells df c')"
      using column_cells_setitem [OF len2, of c c'] column_cells_setitem [OF len0, of c c']
      by (simp add: cleaned)
  qed
  show ?thesis
    using run cols2 rows2 cells2 by blast
qed


lemma clean_numeric_distinct:
  assumes "distinct numeric_columns"
    and "list_all (\<lambda>c. c \<in> set (columns df) \<longrightarrow> numeric_in df c) numeric_columns"
  shows "\<exists>df'. clean_numeric df numeric_columns = Inr df'
           \<and> columns df' = columns df
           \<and> length (rows df') = length (rows df)
           \<and> (\<forall>c. column_cells df' c =
                 (if c \<in> set numeric_columns \<and> c \<in> set (columns df)
                  then map of_float (cleaned_series (map as_float (column_cells df c)))
                  else column_cells df c))"
  using assms
proof (induction numeric_columns arbitrary: df)
  case Nil
  then show ?case by simp
next
  case (Cons col cols)
  have dist: "distinct cols" and notin: "col \<notin> set cols"
    using Cons.prems(1) by simp_all
  show ?case
  proof (cases "col \<in> set (columns df)")
    case False
    have "list_all (\<lambda>c. c \<in> set (columns df) \<longrightarrow> numeric_in df c) cols"
      using Cons.prems(2) by simp
    from Cons.IH [OF dist this] obtain df' where df':
      "clean_numeric df cols = Inr df'" "columns df' = columns df"
      "length (rows df') = length (rows df)"
      "\<forall>c. column_cells df' c =
                 (if c \<in> set cols \<and> c \<in> set (columns df)
                  then map of_float (cleaned_series (map as_float (column_cells df c)))
                  else column_cells df c)"
      by blast
    have "\<forall>c. column_cells df' c =
                 (if c \<in> set (col # cols) \<and> c \<in> set (columns df)
                  then map of_float (cleaned_series (map as_float (column_cells df c)))
                  else column_cells df c)"
      using df'(4) False by auto
    then show ?thesis
      using False df'(1-3) by simp
  next
    case True
    then have "numeric_in df col"
      using Cons.prems(2) by simp
    from clean_column_result [OF this] obtain df1 where df1:
      "clean_column df col = Inr df1" "columns df1 = columns df"
      "length (rows df1) = length (rows df)"
      "\<forall>c'. column_cells df1 c' =
                 (if c' = col then map of_float (cleaned_series (map as_float (column_cells df col)))
                  else column_cells df c')"
      by blast
    have same: "\<And>c. c \<in> set cols \<Longrightarrow> column_cells df1 c = column_cells df c"
      using df1(4) notin by auto
    have "list_all (\<lambda>c. c \<in> set (columns df1) \<longrightarrow> numeric_in df1 c) cols"
      using Cons.prems(2) same by (auto simp: list_all_iff numeric_in_cells df1(2))
    from Cons.IH [OF dist this] obtain df' where df':
      "clean_numeric df1 cols = Inr df'" "columns df' = columns df1"
      "length (rows df') = length (rows df1)"
      "\<forall>c. column_cells df' c =
                 (if c \<in> set cols \<and> c \<in> set (columns df1)
                  then map of_float (cleaned_series (map as_float (column_cells df1 c)))
                  else column_cells df1 c)"
      by blast
    have "\<forall>c. column_cells df' c =
                 (if c \<in> set (col # cols) \<and> c \<in> set (columns df)
                  then map of_float (cleaned_series (map as_float (column_cells df c)))
                  else column_cells df c)"
    proof
      fix c
      show "column_cells df' c =
                 (if c \<in> set (col # cols) \<and> c \<in> set (columns df)
                  then map of_float (cleaned_series (map as_float (column_cells df c)))
                  else column_cells df c)"
      proof (cases "c = col")
        case True
        then show ?thesis
          using df'(4) df1(4) notin \<open>col \<in> set (columns df)\<close> by simp
      next
        case False
        then show ?thesis
          using df'(4) df1(2) df1(4) same by auto
      qed
    qed
    then show ?thesis
      using True df1(1-3) df'(1-3) by simp
  qed
qed


lemma numeric_in_of_float_cells:
  "c \<in> set (columns df) \<Longrightarrow> column_cells df c = map of_float vs \<Longrightarrow> numeric_in df c"
  by (simp add: numeric_in_cells list_all_iff is_numeric_of_float)

lemma clean_numeric_fold:
  assumes "list_all (\<lambda>c. c \<in> set (columns df) \<longrightarrow> numeric_in df c) numeric_columns"
  shows "\<exists>df'. clean_numeric df numeric_columns = Inr df'
           \<and> columns df' = columns df
           \<and> length (rows df') = length (rows df)
           \<and> column_cells df' = foldl (clean_listed (columns df)) (column_cells df) numeric_columns"
  using assms
proof (induction numeric_columns arbitrary: df)
  case Nil
  then show ?case by simp
next
  case (Cons col cols)
  show ?case
  proof (cases "col \<in> set (columns df)")
    case False
    have "list_all (\<lambda>c. c \<in> set (columns df) \<longrightarrow> numeric_in df c) cols"
      using Cons.prems by simp
    from Cons.IH [OF this] show ?thesis
      using False by (simp add: clean_listed_def)
  next
    case True
    then have "numeric_in df col"
      using Cons.prems by simp
    from clean_column_result [OF this] obtain df1 where df1:
      "clean_column df col = Inr df1" "columns df1 = columns df"
      "length (rows df1) = length (rows df)"
      "\<forall>c'. column_cells df1 c' =
                 (if c' = col then map of_float (cleaned_series (map as_float (column_cells df col)))
                  else column_cells df c')"
      by blast
    have step: "column_cells df1 = clean_listed (columns df) (column_cells df) col"
      using df1(4) True by (auto simp: clean_listed_def fun_eq_iff)
    have "list_all (\<lambda>c. c \<in> set (columns df1) \<longrightarrow> numeric_in df1 c) cols"
      unfolding list_all_iff
    proof (intro ballI impI)
      fix c assume c: "c \<in> set cols" "c \<in> set (columns df1)"
      show "numeric_in df1 c"
      proof (cases "c = col")
        case True
        then show ?thesis
          using df1(4) c(2) by (auto intro: numeric_in_of_float_cells)
      next
        case False
        then have "column_cells df1 c = column_cells df c"
          using df1(4) by simp
        moreover have "numeric_in df c"
          using Cons.prems c df1(2) by (simp add: list_all_iff)
        ultimately show ?thesis
          using c(2) by (simp add: numeric_in_cells df1(2))
      qed
    qed
    from Cons.IH [OF this] obtain df' where df':
      "clean_numeric df1 cols = Inr df'" "columns df' = columns df1"
      "length (rows df') = length (rows df1)"
      "column_cells df' = foldl (clean_listed (columns df1)) (column_cells df1) cols"
      by blast
    show ?thesis
      using True df1(1-3) df' step by simp
  qed
qed

text \<open>
  C9. For a list of columns of which those in the schema are numeric, \<^verbatim>\<open>clean_numeric\<close>
  raises nothing, keeps the schema and the number of rows, and treats the listed columns
  one after the other: a column that is not in the schema is skipped; a column that is in
  it has its missing values replaced by the median of its values present and then its
  values above the 99th percentile of the filled column replaced by that percentile, the
  other values unchanged. So a column listed once ends as the cleaned series of its
  original values, and a column that is not listed is unchanged.
\<close>

theorem clean_numeric_columns:
  assumes "list_all (\<lambda>c. c \<in> set (columns df) \<longrightarrow> numeric_in df c) numeric_columns"
  shows "\<exists>df'. clean_numeric df numeric_columns = Inr df'
           \<and> columns df' = columns df
           \<and> length (rows df') = length (rows df)
           \<and> column_cells df' = foldl (clean_listed (columns df)) (column_cells df) numeric_columns
           \<and> (distinct numeric_columns \<longrightarrow>
                (\<forall>c. column_cells df' c =
                   (if c \<in> set numeric_columns \<and> c \<in> set (columns df)
                    then map of_float (cleaned_series (map as_float (column_cells df c)))
                    else column_cells df c)))"
proof -
  from clean_numeric_fold [OF assms] obtain df' where df':
    "clean_numeric df numeric_columns = Inr df'" "columns df' = columns df"
    "length (rows df') = length (rows df)"
    "column_cells df' = foldl (clean_listed (columns df)) (column_cells df) numeric_columns"
    by blast
  have "distinct numeric_columns \<longrightarrow>
                (\<forall>c. column_cells df' c =
                   (if c \<in> set numeric_columns \<and> c \<in> set (columns df)
                    then map of_float (cleaned_series (map as_float (column_cells df c)))
                    else column_cells df c))"
  proof
    assume "distinct numeric_columns"
    from clean_numeric_distinct [OF this assms] df'(1)
    show "\<forall>c. column_cells df' c =
                   (if c \<in> set numeric_columns \<and> c \<in> set (columns df)
                    then map of_float (cleaned_series (map as_float (column_cells df c)))
                    else column_cells df c)"
      by auto
  qed
  then show ?thesis
    using df' by blast
qed


text \<open>
  The missing loan amount becomes the median 250; the 99th percentile of the filled
  column is 972, to which 1000 is cut down; \<^verbatim>\<open>income\<close> is not in the frame and is skipped.
\<close>

theorem clean_numeric_columns_witness:
  "list_all (\<lambda>c. c \<in> set (columns loans5) \<longrightarrow> numeric_in loans5 c) [''loan_amount'', ''income'']
   \<and> distinct [''loan_amount'', ''income'']
   \<and> ''income'' \<notin> set (columns loans5)
   \<and> median [Val 100, NaN, Val 300, Val 200, Val 1000] = Val 250
   \<and> quantile [Val 100, Val 250, Val 300, Val 200, Val 1000] (99/100) = Val 972
   \<and> cleaned_cells loans5 [''loan_amount'', ''income''] ''loan_amount'' =
       Inr [Num 100, Num 250, Num 300, Num 200, Num 972]"
proof -
  have c: "cleaned_series (map as_float (column_cells loans5 ''loan_amount'')) =
     [Val 100, Val 250, Val 300, Val 200, Val 972]"
    by (simp add: cleaned_series_def median_def quantile_def column_cells_def loans5_def
        row_of_def)
  have d: "distinct [''loan_amount'', ''income'']" by simp
  have n: "list_all (\<lambda>c. c \<in> set (columns loans5) \<longrightarrow> numeric_in loans5 c)
      [''loan_amount'', ''income'']"
    by (simp add: numeric_in_def loans5_def row_of_def)
  have cols: "columns loans5 = [''loan_amount'']" by (simp add: loans5_def)
  have m: "median [Val 100, NaN, Val 300, Val 200, Val 1000] = Val 250"
    by (simp add: median_def)
  have q: "quantile [Val 100, Val 250, Val 300, Val 200, Val 1000] (99/100) = Val 972"
    by (simp add: quantile_def)
  have run: "cleaned_cells loans5 [''loan_amount'', ''income''] ''loan_amount'' =
       Inr [Num 100, Num 250, Num 300, Num 200, Num 972]"
    using clean_numeric_columns [OF n] d c cols
    by (auto simp: cleaned_cells_def)
  show ?thesis
    using n d cols m q run by simp
qed

text \<open>
  A column listed twice is cleaned twice: 100 is first cut down to 99, the 99th percentile
  of \<open>0, 100\<close>, and then to 98.01, the 99th percentile of \<open>0, 99\<close>.
\<close>

lemma clean_numeric_listed_twice:
  "cleaned_cells two_amounts [''amount''] ''amount'' = Inr [Num 0, Num 99]
   \<and> cleaned_cells two_amounts [''amount'', ''amount''] ''amount'' = Inr [Num 0, Num (9801/100)]"
  by (simp add: cleaned_cells_def clean_column_def numeric_column_def getitem_def to_numeric_def
      setitem_def fillna_def median_def quantile_def column_cells_def two_amounts_def row_of_def)

end
